theory Spec2Isabelle
  imports Main "HOL-Library.Word" "HOL-Library.Sublist"
begin

section \<open>C strings, character classes and constants of myshell.c\<close>

text \<open>
  The shell keeps its command line and its argument in two static arrays of
  \<open>BUFFER_SIZE\<close> and \<open>MAX_FILENAME_LENGTH\<close> bytes. A C string is the run of bytes in
  front of the first NUL; \<open>cstr\<close> reads it out of an array.
\<close>

definition BUFFER_SIZE :: nat where "BUFFER_SIZE = 256"
definition MAX_PATH_LENGTH :: nat where "MAX_PATH_LENGTH = 256"
definition MAX_FILENAME_LENGTH :: nat where "MAX_FILENAME_LENGTH = 256"

definition EOF :: int where "EOF = - 1"

definition NUL :: char where "NUL = CHR 0x00"

definition nl :: string where "nl = [CHR 0x0A]"

text \<open>
  \<open>isspace\<close> of the C locale: space, \<open>\t \n \v \f \r\<close>, and no byte above 127.
\<close>

definition isspace :: "char \<Rightarrow> bool" where
  "isspace c = (c \<in> set [CHR '' '', CHR 0x09, CHR 0x0A, CHR 0x0B, CHR 0x0C, CHR 0x0D])"

definition cstr :: "char list \<Rightarrow> string" where
  "cstr bytes = takeWhile (\<lambda>c. c \<noteq> NUL) bytes"

definition strnlen :: "char list \<Rightarrow> nat \<Rightarrow> nat" where
  "strnlen bytes n = length (cstr (take n bytes))"

text \<open>\<open>strncmp(a, b, n) == 0\<close> on two C strings.\<close>

definition strncmp_eq :: "string \<Rightarrow> string \<Rightarrow> nat \<Rightarrow> bool" where
  "strncmp_eq a b n = (take n a = take n b)"

subsection \<open>Decimal output of \<open>printf\<close> and the message table of \<open>strerror\<close>\<close>

fun decimal :: "nat \<Rightarrow> string" where
  "decimal n = (if n < 10 then [''0123456789'' ! n]
                else decimal (n div 10) @ [''0123456789'' ! (n mod 10)])"

definition show_int :: "int \<Rightarrow> string" where
  "show_int i = (if i < 0 then CHR ''-'' # decimal (nat (- i)) else decimal (nat i))"

type_synonym errno = nat

definition ENOENT :: errno where "ENOENT = 2"
definition EBADF :: errno where "EBADF = 9"
definition ERANGE :: errno where "ERANGE = 34"

text \<open>An excerpt of the C library's table; every other number prints as unknown.\<close>

definition strerror :: "errno \<Rightarrow> string" where
  "strerror e =
     (if e = 0 then ''Success''
      else if e = 1 then ''Operation not permitted''
      else if e = 2 then ''No such file or directory''
      else if e = 5 then ''Input/output error''
      else if e = 9 then ''Bad file descriptor''
      else if e = 13 then ''Permission denied''
      else if e = 17 then ''File exists''
      else if e = 20 then ''Not a directory''
      else if e = 21 then ''Is a directory''
      else if e = 24 then ''Too many open files''
      else if e = 34 then ''Numerical result out of range''
      else if e = 36 then ''File name too long''
      else if e = 39 then ''Directory not empty''
      else ''Unknown error '' @ decimal e)"

section \<open>The process state and the operating system\<close>

text \<open>
  What the operating system answers is not part of the program. It is held in an
  environment record that the program cannot change: for every path the outcome of
  \<open>open\<close>, \<open>opendir\<close>, \<open>chdir\<close>, \<open>mkdir\<close>, \<open>rmdir\<close>, \<open>unlink\<close> and \<open>stat\<close>, the entry of
  the user database for the current user, and the bytes that happen to lie in the
  uninitialised \<open>current_dir\<close> array of \<open>do_pwd\<close>. An opened file is the list of the
  results its successive \<open>read\<close> calls will give, an opened directory the list of
  results of \<open>readdir\<close>; both are finite, so endless streams are outside the model.
\<close>

datatype read_event = Chunk "char list" | ReadFail errno
datatype dir_event = Entry string | DirFail errno
datatype write_event = Short nat | WriteFail errno

record stat_info =
  st_atime :: "64 word"
  st_mtime :: "64 word"
  st_ctime :: "64 word"
  st_uid :: "32 word"
  st_gid :: "32 word"
  st_ino :: "64 word"
  st_mode :: "32 word"
  st_nlink :: "64 word"
  st_size :: "64 word"
  st_blksize :: "64 word"
  st_blocks :: "64 word"

record passwd =
  pw_name :: string
  pw_dir :: string

record os_env =
  files :: "string \<Rightarrow> errno + read_event list"
  dirs :: "string \<Rightarrow> errno + dir_event list"
  resolve_dir :: "string \<Rightarrow> string \<Rightarrow> errno + string"
  mkdir_res :: "string \<Rightarrow> errno option"
  rmdir_res :: "string \<Rightarrow> errno option"
  unlink_res :: "string \<Rightarrow> errno option"
  stat_res :: "string \<Rightarrow> errno + stat_info"
  pw_entry :: "passwd option"
  getcwd_fail :: "errno option"
  uninit_dir :: string

datatype syscall =
    SysOpen string int | SysClose int | SysRead int nat | SysWrite nat
  | SysOpendir string | SysReaddir int | SysClosedir int
  | SysChdir string | SysGetcwd nat | SysGetpwuid
  | SysMkdir string nat | SysRmdir string | SysUnlink string | SysStat string
  | SysExit int

text \<open>
  \<open>below\<close> holds the bytes that lie in memory in front of \<open>buffer\<close>, nearest first:
  \<open>strip_trailing_whitespace\<close> can read and write them. \<open>filename\<close> is the C string
  held in the static array of that name. \<open>out\<close> is what was handed to standard
  output, in program order; \<open>err\<close> has one element for every \<open>fprintf(stderr, ...)\<close>.
  \<open>trace\<close> lists the system calls made so far.

  Three things are left as the C library does them on a terminal and are not
  modelled further: \<open>printf\<close> and \<open>fprintf\<close> always succeed and leave \<open>errno\<close> alone;
  what \<open>printf\<close> hands over is not held back in a buffer, so it stands in \<open>out\<close>
  in the order of the calls, also between two \<open>write\<close> calls on descriptor 1; and a
  system call that succeeds leaves \<open>errno\<close> alone. The prompt and the \<open>fgets\<close> call
  of \<open>main\<close> are outside the model: a round begins with the line in \<open>buffer\<close>.
\<close>

record state =
  below :: "char list"
  buffer :: "char list"
  filename :: string
  errno :: errno
  cwd :: string
  fdtab :: "(int \<times> read_event list) list"
  dirtab :: "(int \<times> dir_event list) list"
  wscript :: "write_event list"
  out :: string
  err :: "string list"
  trace :: "syscall list"
  env :: os_env

datatype fault = NullDereference | BufferOverflow | OutOfBoundsRead

datatype outcome = Returned int | Exited int | Crashed fault

definition sys :: "syscall \<Rightarrow> state \<Rightarrow> state" where
  "sys c s = s\<lparr>trace := trace s @ [c]\<rparr>"

definition printf :: "state \<Rightarrow> string \<Rightarrow> state" where
  "printf s txt = s\<lparr>out := out s @ txt\<rparr>"

definition fprintf_stderr :: "state \<Rightarrow> string \<Rightarrow> state" where
  "fprintf_stderr s txt = s\<lparr>err := err s @ [txt]\<rparr>"

subsection \<open>Handle tables\<close>

definition fresh :: "(int \<times> 'a) list \<Rightarrow> int" where
  "fresh tab = fold max (map fst tab) 2 + 1"

definition set_entry :: "(int \<times> 'a) list \<Rightarrow> int \<Rightarrow> 'a \<Rightarrow> (int \<times> 'a) list" where
  "set_entry tab k v = map (\<lambda>p. if fst p = k then (k, v) else p) tab"

definition drop_entry :: "(int \<times> 'a) list \<Rightarrow> int \<Rightarrow> (int \<times> 'a) list" where
  "drop_entry tab k = filter (\<lambda>p. fst p \<noteq> k) tab"

subsection \<open>System calls\<close>

definition O_RDONLY :: int where "O_RDONLY = 0"

text \<open>The mode \<open>0777\<close> of \<open>do_mkdir\<close>, written in octal in the source.\<close>

definition mode_0777 :: nat where "mode_0777 = 7 * 64 + 7 * 8 + 7"

definition sys_open :: "state \<Rightarrow> string \<Rightarrow> int \<Rightarrow> int \<times> state" where
  "sys_open s path flags =
     (let s1 = sys (SysOpen path flags) s in
      case files (env s) path of
        Inl e \<Rightarrow> (- 1, s1\<lparr>errno := e\<rparr>)
      | Inr evs \<Rightarrow> (let fd = fresh (fdtab s) in (fd, s1\<lparr>fdtab := (fd, evs) # fdtab s\<rparr>)))"

text \<open>\<open>close\<close> of a number that is no open descriptor, such as \<open>-1\<close>, fails with \<open>EBADF\<close>.\<close>

definition sys_close :: "state \<Rightarrow> int \<Rightarrow> int \<times> state" where
  "sys_close s fd =
     (let s1 = sys (SysClose fd) s in
      case (if fd < 0 then None else map_of (fdtab s) fd) of
        None \<Rightarrow> (- 1, s1\<lparr>errno := EBADF\<rparr>)
      | Some _ \<Rightarrow> (0, s1\<lparr>fdtab := drop_entry (fdtab s) fd\<rparr>))"

text \<open>\<open>read(fd, buffer, count)\<close>: the bytes land at the start of the static \<open>buffer\<close>.\<close>

definition sys_read :: "state \<Rightarrow> int \<Rightarrow> nat \<Rightarrow> int \<times> state" where
  "sys_read s fd count =
     (let s1 = sys (SysRead fd count) s in
      case map_of (fdtab s) fd of
        None \<Rightarrow> (- 1, s1\<lparr>errno := EBADF\<rparr>)
      | Some [] \<Rightarrow> (0, s1)
      | Some (ReadFail e # evs) \<Rightarrow>
          (- 1, s1\<lparr>errno := e, fdtab := set_entry (fdtab s) fd evs\<rparr>)
      | Some (Chunk bs # evs) \<Rightarrow>
          if length bs \<le> count
          then (int (length bs),
                s1\<lparr>buffer := bs @ drop (length bs) (buffer s),
                   fdtab := set_entry (fdtab s) fd evs\<rparr>)
          else (int count,
                s1\<lparr>buffer := take count bs @ drop count (buffer s),
                   fdtab := set_entry (fdtab s) fd (Chunk (drop count bs) # evs)\<rparr>))"

text \<open>
  \<open>write(1, buffer, n)\<close>: standard output takes everything unless \<open>wscript\<close> says
  that this call is short or fails.
\<close>

definition sys_write :: "state \<Rightarrow> nat \<Rightarrow> int \<times> state" where
  "sys_write s n =
     (let s1 = sys (SysWrite n) s; bytes = take n (buffer s) in
      case wscript s of
        [] \<Rightarrow> (int (length bytes), s1\<lparr>out := out s @ bytes\<rparr>)
      | WriteFail e # ws \<Rightarrow> (- 1, s1\<lparr>errno := e, wscript := ws\<rparr>)
      | Short k # ws \<Rightarrow>
          (int (length (take k bytes)), s1\<lparr>out := out s @ take k bytes, wscript := ws\<rparr>))"

definition sys_opendir :: "state \<Rightarrow> string \<Rightarrow> int option \<times> state" where
  "sys_opendir s path =
     (let s1 = sys (SysOpendir path) s in
      case dirs (env s) path of
        Inl e \<Rightarrow> (None, s1\<lparr>errno := e\<rparr>)
      | Inr evs \<Rightarrow> (let d = fresh (dirtab s) in (Some d, s1\<lparr>dirtab := (d, evs) # dirtab s\<rparr>)))"

text \<open>
  \<open>readdir\<close> returns NULL at the end of the directory, leaving \<open>errno\<close> alone, and on
  a failure, setting it.
\<close>

definition sys_readdir :: "state \<Rightarrow> int \<Rightarrow> string option \<times> state" where
  "sys_readdir s d =
     (let s1 = sys (SysReaddir d) s in
      case map_of (dirtab s) d of
        None \<Rightarrow> (None, s1\<lparr>errno := EBADF\<rparr>)
      | Some [] \<Rightarrow> (None, s1)
      | Some (DirFail e # evs) \<Rightarrow> (None, s1\<lparr>errno := e, dirtab := set_entry (dirtab s) d evs\<rparr>)
      | Some (Entry name # evs) \<Rightarrow> (Some name, s1\<lparr>dirtab := set_entry (dirtab s) d evs\<rparr>))"

definition sys_closedir :: "state \<Rightarrow> int \<Rightarrow> int \<times> state" where
  "sys_closedir s d =
     (let s1 = sys (SysClosedir d) s in
      case map_of (dirtab s) d of
        None \<Rightarrow> (- 1, s1\<lparr>errno := EBADF\<rparr>)
      | Some _ \<Rightarrow> (0, s1\<lparr>dirtab := drop_entry (dirtab s) d\<rparr>))"

definition sys_chdir :: "state \<Rightarrow> string \<Rightarrow> int \<times> state" where
  "sys_chdir s path =
     (let s1 = sys (SysChdir path) s in
      case resolve_dir (env s) (cwd s) path of
        Inl e \<Rightarrow> (- 1, s1\<lparr>errno := e\<rparr>)
      | Inr d \<Rightarrow> (0, s1\<lparr>cwd := d\<rparr>))"

text \<open>\<open>getcwd(buf, sz)\<close> needs room for the path and its terminator.\<close>

definition sys_getcwd :: "state \<Rightarrow> nat \<Rightarrow> string option \<times> state" where
  "sys_getcwd s sz =
     (let s1 = sys (SysGetcwd sz) s in
      case getcwd_fail (env s) of
        Some e \<Rightarrow> (None, s1\<lparr>errno := e\<rparr>)
      | None \<Rightarrow> if sz \<le> length (cwd s) then (None, s1\<lparr>errno := ERANGE\<rparr>)
                else (Some (cwd s), s1))"

text \<open>\<open>getpwuid(getuid())\<close>: NULL when the user database has no record.\<close>

definition sys_getpwuid :: "state \<Rightarrow> passwd option \<times> state" where
  "sys_getpwuid s = (pw_entry (env s), sys SysGetpwuid s)"

definition sys_path_call ::
  "syscall \<Rightarrow> errno option \<Rightarrow> state \<Rightarrow> int \<times> state" where
  "sys_path_call c res s =
     (case res of None \<Rightarrow> (0, sys c s) | Some e \<Rightarrow> (- 1, (sys c s)\<lparr>errno := e\<rparr>))"

definition sys_mkdir :: "state \<Rightarrow> string \<Rightarrow> nat \<Rightarrow> int \<times> state" where
  "sys_mkdir s path mode = sys_path_call (SysMkdir path mode) (mkdir_res (env s) path) s"

definition sys_rmdir :: "state \<Rightarrow> string \<Rightarrow> int \<times> state" where
  "sys_rmdir s path = sys_path_call (SysRmdir path) (rmdir_res (env s) path) s"

definition sys_unlink :: "state \<Rightarrow> string \<Rightarrow> int \<times> state" where
  "sys_unlink s path = sys_path_call (SysUnlink path) (unlink_res (env s) path) s"

definition sys_stat :: "state \<Rightarrow> string \<Rightarrow> (int \<times> stat_info option) \<times> state" where
  "sys_stat s path =
     (let s1 = sys (SysStat path) s in
      case stat_res (env s) path of
        Inl e \<Rightarrow> ((- 1, None), s1\<lparr>errno := e\<rparr>)
      | Inr st \<Rightarrow> ((0, Some st), s1))"

definition sys_exit :: "state \<Rightarrow> int \<Rightarrow> outcome \<times> state" where
  "sys_exit s code = (Exited code, sys (SysExit code) s)"

section \<open>The built-in operations\<close>

text \<open>
  \<open>do_cd\<close> is only ever handed the static \<open>filename\<close> array, and it writes the home
  directory through that pointer, so its argument is the \<open>filename\<close> field of the
  state. \<open>p->pw_dir\<close> with \<open>p\<close> NULL is a fault; \<open>strncpy\<close> of a home directory of
  \<open>MAX_PATH_LENGTH\<close> bytes or more leaves the array without a terminator, and
  \<open>chdir\<close> then reads past its end.
\<close>

definition do_cd :: "state \<Rightarrow> outcome \<times> state" where
  "do_cd s =
     (case sys_getpwuid s of (p, s1) \<Rightarrow>
        (case (if strnlen (filename s1) MAX_PATH_LENGTH = 0
               then (case p of
                       None \<Rightarrow> Inl NullDereference
                     | Some pw \<Rightarrow>
                         if length (pw_dir pw) < MAX_PATH_LENGTH
                         then Inr (s1\<lparr>filename := pw_dir pw\<rparr>)
                         else Inl OutOfBoundsRead)
               else Inr s1) of
           Inl f \<Rightarrow> (Crashed f, s1)
         | Inr s2 \<Rightarrow>
             (case sys_chdir s2 (filename s2) of (r, s3) \<Rightarrow>
                if r < 0
                then (Returned (- 1), fprintf_stderr s3 (''cd: '' @ strerror (errno s3) @ nl))
                else (Returned 0, s3))))"

definition dir_pending :: "state \<Rightarrow> int \<Rightarrow> nat" where
  "dir_pending s d = (case map_of (dirtab s) d of None \<Rightarrow> 0 | Some evs \<Rightarrow> length evs)"

function ls_loop :: "state \<Rightarrow> int \<Rightarrow> outcome \<times> state" where
  "ls_loop s dir =
     (case sys_readdir s dir of
        (None, s1) \<Rightarrow> (case sys_closedir s1 dir of (_, s2) \<Rightarrow> (Returned 0, s2))
      | (Some d_name, s1) \<Rightarrow>
          if errno s1 = 0 then ls_loop (printf s1 (d_name @ nl)) dir
          else (let s2 = fprintf_stderr s1
                      (''ls: Cannot read entry from directory... '' @ strerror (errno s1) @ nl)
                in case sys_closedir s2 dir of (_, s3) \<Rightarrow> (Returned (- 1), s3)))"
  by pat_completeness auto

lemma map_of_set_entry:
  "map_of tab k = Some x \<Longrightarrow> map_of (set_entry tab k v) k = Some v"
  by (induction tab) (auto simp: set_entry_def)

lemma readdir_pending:
  "sys_readdir s d = (Some name, s1) \<Longrightarrow> dir_pending s1 d < dir_pending s d"
  by (auto simp: sys_readdir_def dir_pending_def sys_def Let_def map_of_set_entry
           split: option.splits list.splits dir_event.splits)

lemma dir_pending_printf [simp]: "dir_pending (printf s txt) d = dir_pending s d"
  by (simp add: dir_pending_def printf_def)

termination ls_loop
  by (relation "measure (\<lambda>(s, d). dir_pending s d)") (auto dest: readdir_pending [OF sym])

declare ls_loop.simps [simp del]

definition do_ls :: "state \<Rightarrow> string \<Rightarrow> outcome \<times> state" where
  "do_ls s dirname =
     (case sys_opendir s dirname of
        (None, s1) \<Rightarrow> (Returned (- 1), fprintf_stderr s1 (''ls: '' @ strerror (errno s1) @ nl))
      | (Some dir, s1) \<Rightarrow> ls_loop (s1\<lparr>errno := 0\<rparr>) dir)"

text \<open>
  The loop of \<open>do_cat\<close>. \<open>cat_fail\<close> is the body of its error branch: the descriptor
  is closed first, and \<open>strerror\<close> then reads whatever \<open>errno\<close> holds after that.
\<close>

definition cat_fail :: "state \<Rightarrow> int \<Rightarrow> outcome \<times> state" where
  "cat_fail s fd =
     (case sys_close s fd of (_, s1) \<Rightarrow>
        (Returned (- 1),
         fprintf_stderr s1 (''cat: cannot read file. '' @ strerror (errno s1) @ nl)))"

fun read_weight :: "read_event list \<Rightarrow> nat" where
  "read_weight [] = 0"
| "read_weight (Chunk bs # evs) = Suc (length bs + read_weight evs)"
| "read_weight (ReadFail e # evs) = Suc (read_weight evs)"

definition fd_pending :: "state \<Rightarrow> int \<Rightarrow> nat" where
  "fd_pending s fd = (case map_of (fdtab s) fd of None \<Rightarrow> 0 | Some evs \<Rightarrow> read_weight evs)"

function cat_loop :: "state \<Rightarrow> int \<Rightarrow> outcome \<times> state" where
  "cat_loop s fd =
     (case sys_read s fd BUFFER_SIZE of (bytesRead, s1) \<Rightarrow>
        if bytesRead \<noteq> 0
        then (if bytesRead = - 1 then cat_fail s1 fd
              else (case sys_write s1 (nat bytesRead) of (written, s2) \<Rightarrow>
                      if written \<noteq> bytesRead then cat_fail s2 fd
                      else cat_loop (printf s2 nl) fd))
        else (case sys_close s1 fd of (_, s2) \<Rightarrow> (Returned 0, s2)))"
  by pat_completeness auto

lemma read_pending:
  "sys_read s fd BUFFER_SIZE = (r, s1) \<Longrightarrow> r \<noteq> 0 \<Longrightarrow> r \<noteq> - 1 \<Longrightarrow>
   fd_pending s1 fd < fd_pending s fd"
  by (auto simp: sys_read_def fd_pending_def sys_def Let_def map_of_set_entry BUFFER_SIZE_def
           split: option.splits list.splits read_event.splits if_splits)

lemma write_pending:
  "sys_write s n = (w, s1) \<Longrightarrow> fd_pending s1 fd = fd_pending s fd"
  by (auto simp: sys_write_def fd_pending_def sys_def Let_def
           split: list.splits write_event.splits)

lemma fd_pending_printf [simp]: "fd_pending (printf s txt) fd = fd_pending s fd"
  by (simp add: fd_pending_def printf_def)

termination cat_loop
proof (relation "measure (\<lambda>(s, fd). fd_pending s fd)", goal_cases)
  case 1
  show ?case by simp
next
  case (2 s fd bytesRead s1 written s2)
  have "fd_pending s2 fd = fd_pending s1 fd"
    using 2(4) by (metis write_pending)
  moreover have "fd_pending s1 fd < fd_pending s fd"
    using 2(1-3) by (metis read_pending)
  ultimately show ?case by simp
qed

declare cat_loop.simps [simp del]

definition do_cat :: "state \<Rightarrow> string \<Rightarrow> outcome \<times> state" where
  "do_cat s name =
     (case sys_open s name O_RDONLY of (fd, s1) \<Rightarrow>
        if fd = - 1
        then (case sys_close s1 fd of (_, s2) \<Rightarrow>
                (Returned fd,
                 fprintf_stderr s2 (''cat: Cannot open file. '' @ strerror (errno s2) @ nl)))
        else cat_loop s1 fd)"

definition do_mkdir :: "state \<Rightarrow> string \<Rightarrow> outcome \<times> state" where
  "do_mkdir s dirname =
     (case sys_mkdir s dirname mode_0777 of (newDir, s1) \<Rightarrow>
        if newDir = - 1
        then (Returned newDir,
              fprintf_stderr s1
                (''mkdir: Cannot create directory. '' @ strerror (errno s1) @ ''.'' @ nl))
        else (Returned newDir, s1))"

definition do_rmdir :: "state \<Rightarrow> string \<Rightarrow> outcome \<times> state" where
  "do_rmdir s dirname =
     (case sys_rmdir s dirname of (r, s1) \<Rightarrow>
        if r = - 1
        then (Returned (- 1),
              fprintf_stderr s1
                (''rmdir: Cannot remove directory. '' @ strerror (errno s1) @ ''.'' @ nl))
        else (Returned 0, s1))"

text \<open>
  When \<open>getcwd\<close> fails, \<open>current_dir\<close> was never written: \<open>printf\<close> prints the bytes
  that lie there, \<open>uninit_dir\<close> of the environment.
\<close>

definition do_pwd :: "state \<Rightarrow> outcome \<times> state" where
  "do_pwd s =
     (case sys_getcwd s MAX_PATH_LENGTH of
        (None, s1) \<Rightarrow>
          (Returned 1,
           printf (fprintf_stderr s1
                     (''pwd: Could not find current directory. '' @ strerror (errno s1)
                      @ ''.'' @ nl))
                  (uninit_dir (env s1) @ nl))
      | (Some current_dir, s1) \<Rightarrow> (Returned 1, printf s1 (current_dir @ nl)))"

definition do_rm :: "state \<Rightarrow> string \<Rightarrow> outcome \<times> state" where
  "do_rm s name =
     (case sys_unlink s name of (rm, s1) \<Rightarrow>
        if rm = - 1
        then (Returned rm,
              fprintf_stderr s1 (''rm: Cannot remove file. '' @ strerror (errno s1) @ ''.'' @ nl))
        else (Returned rm, s1))"

text \<open>The report of \<open>do_stat\<close>; \<open>%ld\<close> and \<open>%d\<close> print the fields as signed numbers.\<close>

definition stat_report :: "string \<Rightarrow> stat_info \<Rightarrow> string" where
  "stat_report name stats =
     nl @ ''STATS FOR '' @ [CHR 0x22] @ name @ [CHR 0x22] @ '':'' @ nl
     @ ''Last access: '' @ show_int (sint (st_atime stats)) @ '' ns'' @ nl
     @ ''Last modification: '' @ show_int (sint (st_mtime stats)) @ '' ns'' @ nl
     @ ''Last change: '' @ show_int (sint (st_ctime stats)) @ '' ns'' @ nl @ nl
     @ ''File owner ID: '' @ show_int (sint (st_uid stats)) @ nl
     @ ''File group owner ID: '' @ show_int (sint (st_gid stats)) @ nl
     @ ''File inode number: '' @ show_int (sint (st_ino stats)) @ nl
     @ ''File type & mode: '' @ show_int (sint (st_mode stats)) @ nl
     @ ''File hard link count: '' @ show_int (sint (st_nlink stats)) @ nl @ nl
     @ ''File size: '' @ show_int (sint (st_size stats)) @ '' byte(s)'' @ nl
     @ ''File preferred block size: '' @ show_int (sint (st_blksize stats)) @ nl
     @ ''Allocated '' @ show_int (sint (st_blocks stats)) @ '' blocks of 512 bytes'' @ nl @ nl"

definition do_stat :: "state \<Rightarrow> string \<Rightarrow> outcome \<times> state" where
  "do_stat s name =
     (case sys_stat s name of
        ((result, None), s1) \<Rightarrow>
          (Returned result,
           fprintf_stderr s1
             (''stat: Cannot retrieve file stats. '' @ strerror (errno s1) @ ''.'' @ nl))
      | ((result, Some stats), s1) \<Rightarrow> (Returned result, printf s1 (stat_report name stats)))"

definition do_q :: "state \<Rightarrow> outcome \<times> state" where
  "do_q s = sys_exit s 0"

section \<open>The command dispatcher\<close>

text \<open>
  \<open>sscanf(buf, "<verb> %s", filename)\<close>. The characters of the verb must be the
  first characters of the input: an ordinary character of a format skips nothing.
  The blank of the format and \<open>%s\<close> itself both skip white space, and \<open>%s\<close> then
  takes the characters up to the next white space. The call returns 1 when a word
  was stored, 0 when a character of the verb differs, and \<open>EOF\<close> when the input ends
  before a word was found. \<open>%s\<close> has no width: a word that does not fit the
  \<open>MAX_FILENAME_LENGTH\<close> bytes of \<open>filename\<close> with its terminator overruns the array.
\<close>

datatype scanned = Assigned string | Failed int | Overflowed

fun match_literal :: "string \<Rightarrow> string \<Rightarrow> int + string" where
  "match_literal [] inp = Inr inp"
| "match_literal (c # cs) [] = Inl EOF"
| "match_literal (c # cs) (x # xs) = (if c = x then match_literal cs xs else Inl 0)"

definition sscanf_verb :: "string \<Rightarrow> string \<Rightarrow> scanned" where
  "sscanf_verb buf verb =
     (case match_literal verb buf of
        Inl r \<Rightarrow> Failed r
      | Inr rest \<Rightarrow>
          (case dropWhile isspace (dropWhile isspace rest) of
             [] \<Rightarrow> Failed EOF
           | x # xs \<Rightarrow>
               (let word = takeWhile (\<lambda>c. \<not> isspace c) (x # xs) in
                if MAX_FILENAME_LENGTH \<le> length word then Overflowed else Assigned word)))"

definition ls_default :: "state \<Rightarrow> outcome \<times> state" where
  "ls_default s =
     (let s1 = (if strnlen (filename s) BUFFER_SIZE = 0 then s\<lparr>filename := ''.''\<rparr> else s)
      in do_ls s1 (filename s1))"

definition invalid_command :: "state \<Rightarrow> string \<Rightarrow> outcome \<times> state" where
  "invalid_command s buf =
     (Returned (- 1),
      if strnlen buf BUFFER_SIZE \<noteq> 0
      then fprintf_stderr s (''myshell: '' @ buf @ '': No such file or directory'' @ nl)
      else s)"

text \<open>
  \<open>execute_command\<close>: the tests in the order of the source. Its argument is the C
  string it is handed; \<open>main\<close> hands it the static \<open>buffer\<close>.
\<close>

definition execute_command :: "state \<Rightarrow> string \<Rightarrow> outcome \<times> state" where
  "execute_command s buf =
     (case sscanf_verb buf ''cat'' of
        Overflowed \<Rightarrow> (Crashed BufferOverflow, s)
      | Assigned a \<Rightarrow> do_cat (s\<lparr>filename := a\<rparr>) a
      | Failed _ \<Rightarrow>
     (case sscanf_verb buf ''stat'' of
        Overflowed \<Rightarrow> (Crashed BufferOverflow, s)
      | Assigned a \<Rightarrow> do_stat (s\<lparr>filename := a\<rparr>) a
      | Failed _ \<Rightarrow>
     (case sscanf_verb buf ''mkdir'' of
        Overflowed \<Rightarrow> (Crashed BufferOverflow, s)
      | Assigned a \<Rightarrow> do_mkdir (s\<lparr>filename := a\<rparr>) a
      | Failed _ \<Rightarrow>
     (case sscanf_verb buf ''rmdir'' of
        Overflowed \<Rightarrow> (Crashed BufferOverflow, s)
      | Assigned a \<Rightarrow> do_rmdir (s\<lparr>filename := a\<rparr>) a
      | Failed _ \<Rightarrow>
     (case sscanf_verb buf ''rm'' of
        Overflowed \<Rightarrow> (Crashed BufferOverflow, s)
      | Assigned a \<Rightarrow> do_rm (s\<lparr>filename := a\<rparr>) a
      | Failed _ \<Rightarrow>
     (case sscanf_verb buf ''ls'' of
        Overflowed \<Rightarrow> (Crashed BufferOverflow, s)
      | Assigned a \<Rightarrow> ls_default (s\<lparr>filename := a\<rparr>)
      | Failed _ \<Rightarrow>
          if strncmp_eq buf ''ls'' BUFFER_SIZE then ls_default s
          else if strncmp_eq buf ''pwd'' BUFFER_SIZE then do_pwd s
          else
     (case sscanf_verb buf ''q'' of
        Overflowed \<Rightarrow> (Crashed BufferOverflow, s)
      | Assigned a \<Rightarrow> do_q (s\<lparr>filename := a\<rparr>)
      | Failed _ \<Rightarrow>
          if strncmp_eq buf ''q'' BUFFER_SIZE then do_q s
          else invalid_command s buf)))))))"

section \<open>One round of the loop of \<open>main\<close>\<close>

text \<open>
  \<open>strip_trailing_whitespace\<close> walks down from the last character of the line and
  has no lower bound: on a line of white space only, index \<open>-1\<close> is read, the byte
  in front of \<open>buffer\<close>, and so on through \<open>below\<close>. Leaving the modelled memory is
  a fault.
\<close>

definition peek :: "state \<Rightarrow> int \<Rightarrow> char option" where
  "peek s i =
     (if 0 \<le> i
      then (if nat i < length (buffer s) then Some (buffer s ! nat i) else None)
      else (if nat (- i - 1) < length (below s) then Some (below s ! nat (- i - 1)) else None))"

definition poke :: "state \<Rightarrow> int \<Rightarrow> char \<Rightarrow> state" where
  "poke s i c =
     (if 0 \<le> i then s\<lparr>buffer := (buffer s)[nat i := c]\<rparr>
      else s\<lparr>below := (below s)[nat (- i - 1) := c]\<rparr>)"

function strip_loop :: "state \<Rightarrow> int \<Rightarrow> state option" where
  "strip_loop s i =
     (case peek s i of
        None \<Rightarrow> None
      | Some c \<Rightarrow> if isspace c then strip_loop (poke s i NUL) (i - 1) else Some s)"
  by pat_completeness auto

lemma peek_lower: "peek s i = Some c \<Longrightarrow> - int (length (below s)) \<le> i"
  by (auto simp: peek_def split: if_splits)

lemma length_below_poke [simp]: "length (below (poke s i c)) = length (below s)"
  by (simp add: poke_def)

termination strip_loop
proof (relation "measure (\<lambda>(s, i). nat (i + int (length (below s)) + 1))", goal_cases)
  case 1
  show ?case by simp
next
  case (2 s i c)
  from 2(1) have "- int (length (below s)) \<le> i"
    by (metis peek_lower)
  then show ?case by simp
qed

declare strip_loop.simps [simp del]

definition strip_trailing_whitespace :: "state \<Rightarrow> state option" where
  "strip_trailing_whitespace s = strip_loop s (int (strnlen (buffer s) BUFFER_SIZE) - 1)"

datatype step = Next state | Halt int state | Fault fault state

text \<open>\<open>main\<close> does not look at what \<open>do_cd\<close> and \<open>execute_command\<close> return.\<close>

definition ignore_result :: "outcome \<times> state \<Rightarrow> step" where
  "ignore_result r =
     (case r of
        (Returned _, s) \<Rightarrow> Next s
      | (Exited code, s) \<Rightarrow> Halt code s
      | (Crashed f, s) \<Rightarrow> Fault f s)"

text \<open>The tests of \<open>main\<close> on the stripped line, ahead of \<open>execute_command\<close>.\<close>

definition dispatch :: "state \<Rightarrow> string \<Rightarrow> step" where
  "dispatch s buf =
     (case sscanf_verb buf ''cd'' of
        Overflowed \<Rightarrow> Fault BufferOverflow s
      | Assigned a \<Rightarrow> ignore_result (do_cd (s\<lparr>filename := a\<rparr>))
      | Failed _ \<Rightarrow>
          if strncmp_eq buf ''cd'' BUFFER_SIZE then ignore_result (do_cd s)
          else if strncmp_eq buf ''exit'' BUFFER_SIZE then ignore_result (sys_exit s 0)
          else ignore_result (execute_command s buf))"

text \<open>
  The body of the loop once \<open>fgets\<close> has filled \<open>buffer\<close>: strip, clear \<open>filename\<close>,
  dispatch.
\<close>

definition main_iteration :: "state \<Rightarrow> step" where
  "main_iteration s =
     (case strip_trailing_whitespace s of
        None \<Rightarrow> Fault OutOfBoundsRead s
      | Some s1 \<Rightarrow> dispatch (s1\<lparr>filename := []\<rparr>) (cstr (buffer s1)))"

section \<open>Words of a line\<close>

text \<open>
  The vocabulary in which the properties of the dispatcher are stated: a run of
  white space, a token (a non-empty C string without white space), the leading
  token of a line, and what may follow a token (nothing, or white space first).
\<close>

definition blank :: "string \<Rightarrow> bool" where
  "blank ws = (\<forall>c \<in> set ws. isspace c)"

definition token :: "string \<Rightarrow> bool" where
  "token t = (t \<noteq> [] \<and> (\<forall>c \<in> set t. \<not> isspace c \<and> c \<noteq> NUL))"

definition leading_token :: "string \<Rightarrow> string" where
  "leading_token line = takeWhile (\<lambda>c. \<not> isspace c) (dropWhile isspace line)"

definition token_ends :: "string \<Rightarrow> bool" where
  "token_ends rest = (case rest of [] \<Rightarrow> True | c # _ \<Rightarrow> isspace c)"

text \<open>The pieces of \<open>n\<close> elements into which successive reads of \<open>n\<close> bytes cut a file.\<close>

function pieces :: "nat \<Rightarrow> 'a list \<Rightarrow> 'a list list" where
  "pieces n xs = (if n = 0 \<or> xs = [] then [] else take n xs # pieces n (drop n xs))"
  by pat_completeness auto

termination pieces
  by (relation "measure (\<lambda>(n, xs). length xs)") auto

declare pieces.simps [simp del]

text \<open>
  The recognized verbs, and those among them that \<open>main\<close> and \<open>execute_command\<close>
  test with \<open>sscanf\<close>, in the order of the tests.
\<close>

definition verbs :: "string list" where
  "verbs = [''cat'', ''cd'', ''stat'', ''mkdir'', ''rmdir'', ''rm'', ''ls'', ''pwd'', ''exit'', ''q'']"

definition scanned_verbs :: "string list" where
  "scanned_verbs = [''cd'', ''cat'', ''stat'', ''mkdir'', ''rmdir'', ''rm'', ''ls'', ''q'']"

text \<open>
  The first system call of a round tells which built-in ran: every built-in begins
  with a call of its own (\<open>do_cd\<close> with \<open>getpwuid\<close>, \<open>do_cat\<close> with \<open>open\<close>, \<open>do_ls\<close>
  with \<open>opendir\<close>, \<open>do_pwd\<close> with \<open>getcwd\<close>, and so on), and the dispatcher itself
  makes none.
\<close>

definition state_of :: "step \<Rightarrow> state" where
  "state_of st = (case st of Next s \<Rightarrow> s | Halt _ s \<Rightarrow> s | Fault _ s \<Rightarrow> s)"

definition first_call :: "state \<Rightarrow> step \<Rightarrow> syscall option" where
  "first_call s st =
     (case drop (length (trace s)) (trace (state_of st)) of [] \<Rightarrow> None | c # _ \<Rightarrow> Some c)"

section \<open>States and environments used to run the model\<close>

definition quiet_env :: os_env where
  "quiet_env =
     \<lparr>files = (\<lambda>p. Inl ENOENT), dirs = (\<lambda>p. Inl ENOENT),
      resolve_dir = (\<lambda>c p. Inl ENOENT), mkdir_res = (\<lambda>p. None), rmdir_res = (\<lambda>p. None),
      unlink_res = (\<lambda>p. None), stat_res = (\<lambda>p. Inl ENOENT), pw_entry = None,
      getcwd_fail = None, uninit_dir = ''junk''\<rparr>"

definition idle :: state where
  "idle =
     \<lparr>below = [NUL], buffer = replicate 256 NUL, filename = [], errno = 0, cwd = ''/'',
      fdtab = [], dirtab = [], wscript = [], out = [], err = [], trace = [],
      env = quiet_env\<rparr>"

text \<open>
  An environment with two readable files: \<open>f\<close> holds \<open>hello\<close>, \<open>big\<close> holds 300 times
  the letter \<open>a\<close>.
\<close>

definition hello_env :: os_env where
  "hello_env =
     quiet_env\<lparr>files :=
       (\<lambda>p. if p = ''f'' then Inr [Chunk ''hello'']
            else if p = ''big'' then Inr [Chunk (replicate 300 (CHR ''a''))]
            else Inl ENOENT)\<rparr>"

text \<open>A directory whose second \<open>readdir\<close> fails with an input/output error.\<close>

definition broken_dir_env :: os_env where
  "broken_dir_env = quiet_env\<lparr>dirs := (\<lambda>p. Inr [Entry ''.'', DirFail 5, Entry ''a''])\<rparr>"

text \<open>Two directories that \<open>chdir\<close> accepts, and a user whose home is one of them.\<close>

definition tmp_env :: os_env where
  "tmp_env =
     quiet_env\<lparr>resolve_dir :=
                 (\<lambda>c p. if p = ''/tmp'' \<or> p = ''/home/u'' then Inr p else Inl ENOENT),
               pw_entry := Some \<lparr>pw_name = ''u'', pw_dir = ''/home/u''\<rparr>\<rparr>"

text \<open>
  A directory \<open>deep\<close> that \<open>chdir\<close> accepts and whose absolute path has 256 bytes, one
  more than \<open>getcwd\<close> can put into an array of \<open>MAX_PATH_LENGTH\<close> bytes.
\<close>

definition deep_env :: os_env where
  "deep_env =
     quiet_env\<lparr>resolve_dir :=
       (\<lambda>c p. if p = ''deep'' then Inr (CHR ''/'' # replicate 255 (CHR ''a''))
              else Inl ENOENT)\<rparr>"

text \<open>A user whose home directory has a path of 256 bytes.\<close>

definition long_home_env :: os_env where
  "long_home_env =
     quiet_env\<lparr>pw_entry :=
       Some \<lparr>pw_name = ''u'', pw_dir = CHR ''/'' # replicate 255 (CHR ''h'')\<rparr>\<rparr>"

section \<open>Basic facts about strings and scanning\<close>

lemma strnlen_Nil [simp]: "strnlen [] n = 0"
  by (simp add: strnlen_def cstr_def)

section \<open>The working-directory query\<close>

text \<open>
  Claim C6. \<open>do_pwd\<close> returns 1 whatever \<open>getcwd\<close> does. When \<open>getcwd\<close> fails, because
  the system refuses or because the path does not fit \<open>MAX_PATH_LENGTH\<close> bytes, one
  line with the reason goes to standard error, and the bytes of the array that was
  never written still go to standard output, followed by a newline. When it
  succeeds the path is printed and nothing is reported.
\<close>

theorem do_pwd_sentinel:
  "fst (do_pwd s) = Returned 1 \<and>
   (getcwd_fail (env s) = Some e \<longrightarrow>
      err (snd (do_pwd s)) =
        err s @ [''pwd: Could not find current directory. '' @ strerror e @ ''.'' @ nl] \<and>
      out (snd (do_pwd s)) = out s @ uninit_dir (env s) @ nl) \<and>
   (getcwd_fail (env s) = None \<and> MAX_PATH_LENGTH \<le> length (cwd s) \<longrightarrow>
      err (snd (do_pwd s)) =
        err s @ [''pwd: Could not find current directory. '' @ strerror ERANGE @ ''.'' @ nl] \<and>
      out (snd (do_pwd s)) = out s @ uninit_dir (env s) @ nl) \<and>
   (getcwd_fail (env s) = None \<and> length (cwd s) < MAX_PATH_LENGTH \<longrightarrow>
      err (snd (do_pwd s)) = err s \<and> out (snd (do_pwd s)) = out s @ cwd s @ nl)"
  by (auto simp: do_pwd_def sys_getcwd_def sys_def Let_def printf_def fprintf_stderr_def
      split: option.splits prod.splits)

theorem do_pwd_sentinel_witness:
  "fst (do_pwd (idle\<lparr>env := quiet_env\<lparr>getcwd_fail := Some 13\<rparr>\<rparr>)) = Returned 1 \<and>
   err (snd (do_pwd (idle\<lparr>env := quiet_env\<lparr>getcwd_fail := Some 13\<rparr>\<rparr>))) =
     [''pwd: Could not find current directory. Permission denied.'' @ nl] \<and>
   out (snd (do_pwd (idle\<lparr>env := quiet_env\<lparr>getcwd_fail := Some 13\<rparr>\<rparr>))) = ''junk'' @ nl \<and>
   fst (do_pwd idle) = Returned 1 \<and>
   err (snd (do_pwd idle)) = [] \<and>
   out (snd (do_pwd idle)) = ''/'' @ nl"
  using do_pwd_sentinel [of "idle\<lparr>env := quiet_env\<lparr>getcwd_fail := Some 13\<rparr>\<rparr>" 13]
    do_pwd_sentinel [of idle 0]
  by (simp add: idle_def quiet_env_def strerror_def MAX_PATH_LENGTH_def)

section \<open>The empty line\<close>

text \<open>
  Claim C10. On the empty string \<open>execute_command\<close> writes nothing and returns -1,
  the value it also returns for a command it does not know, so the two cannot be
  told apart by the value. \<open>main\<close> drops the value: whatever number comes back, the
  loop goes on with the state the command left.
\<close>

theorem execute_command_empty_line:
  "execute_command s [] = (Returned (- 1), s) \<and>
   execute_command s ''frobnicate'' =
     (Returned (- 1),
      fprintf_stderr s (''myshell: frobnicate: No such file or directory'' @ nl)) \<and>
   dispatch s [] = Next s \<and>
   ignore_result (Returned r, s') = Next s'"
  by (simp add: execute_command_def dispatch_def sscanf_verb_def strncmp_eq_def
      invalid_command_def ignore_result_def strnlen_def cstr_def NUL_def BUFFER_SIZE_def)

section \<open>Handles are released\<close>

lemma fold_max_ge: "(a::int) \<le> fold max xs a"
proof (induction xs arbitrary: a)
  case Nil
  show ?case by simp
next
  case (Cons x xs)
  have "a \<le> max x a" by simp
  also have "\<dots> \<le> fold max xs (max x a)" by (rule Cons.IH)
  finally show ?case by simp
qed

lemma fold_max_mem: "(k::int) \<in> set xs \<Longrightarrow> k \<le> fold max xs a"
proof (induction xs arbitrary: a)
  case Nil
  then show ?case by simp
next
  case (Cons x xs)
  show ?case
  proof (cases "k = x")
    case True
    have "k \<le> max x a" using True by simp
    also have "\<dots> \<le> fold max xs (max x a)" by (rule fold_max_ge)
    finally show ?thesis by simp
  next
    case False
    with Cons.prems have "k \<in> set xs" by simp
    then show ?thesis using Cons.IH by simp
  qed
qed

lemma fresh_notin: "fresh tab \<notin> fst ` set tab"
proof
  assume "fresh tab \<in> fst ` set tab"
  then have "fresh tab \<in> set (map fst tab)" by simp
  then have "fresh tab \<le> fold max (map fst tab) 2" by (rule fold_max_mem)
  then show False by (simp add: fresh_def)
qed

lemma fresh_ge: "3 \<le> fresh tab"
  using fold_max_ge [of 2 "map fst tab"] by (simp add: fresh_def)

lemma set_entry_absent: "k \<notin> fst ` set tab \<Longrightarrow> set_entry tab k v = tab"
  by (induction tab) (auto simp: set_entry_def)

lemma drop_entry_absent: "k \<notin> fst ` set tab \<Longrightarrow> drop_entry tab k = tab"
  by (induction tab) (auto simp: drop_entry_def)

lemma set_entry_head:
  "k \<notin> fst ` set tab \<Longrightarrow> set_entry ((k, v) # tab) k v' = (k, v') # tab"
  using set_entry_absent [of k tab v'] by (simp add: set_entry_def)

lemma drop_entry_head:
  "k \<notin> fst ` set tab \<Longrightarrow> drop_entry ((k, v) # tab) k = tab"
  using drop_entry_absent [of k tab] by (simp add: drop_entry_def)

lemma read_keeps_head:
  assumes "fdtab s = (fd, evs) # tab" and "fd \<notin> fst ` set tab"
    and "sys_read s fd n = (r, s1)"
  shows "\<exists>evs'. fdtab s1 = (fd, evs') # tab"
  using assms
  by (auto simp: sys_read_def sys_def Let_def set_entry_head
      split: list.splits read_event.splits if_splits)

lemma write_keeps_fdtab: "sys_write s n = (w, s1) \<Longrightarrow> fdtab s1 = fdtab s"
  by (auto simp: sys_write_def sys_def Let_def split: list.splits write_event.splits)

lemma close_releases:
  assumes "fdtab s = (fd, evs) # tab" and "fd \<notin> fst ` set tab" and "0 \<le> fd"
  shows "fdtab (snd (sys_close s fd)) = tab"
  using assms by (simp add: sys_close_def sys_def Let_def drop_entry_head)

lemma cat_fail_releases:
  assumes "fdtab s = (fd, evs) # tab" and "fd \<notin> fst ` set tab" and "0 \<le> fd"
  shows "fdtab (snd (cat_fail s fd)) = tab"
  using close_releases [OF assms]
  by (simp add: cat_fail_def fprintf_stderr_def split_beta)

lemma cat_loop_releases:
  "fdtab s = (fd, evs) # tab \<Longrightarrow> fd \<notin> fst ` set tab \<Longrightarrow> 0 \<le> fd \<Longrightarrow>
   fdtab (snd (cat_loop s fd)) = tab"
proof (induction s fd arbitrary: evs rule: cat_loop.induct)
  case (1 s fd)
  obtain r s1 where rd: "sys_read s fd BUFFER_SIZE = (r, s1)"
    by (cases "sys_read s fd BUFFER_SIZE")
  from read_keeps_head [OF "1.prems"(1,2) rd]
  obtain evs1 where t1: "fdtab s1 = (fd, evs1) # tab" by blast
  obtain w s2 where wr: "sys_write s1 (nat r) = (w, s2)"
    by (cases "sys_write s1 (nat r)")
  have t2: "fdtab s2 = (fd, evs1) # tab"
    using write_keeps_fdtab [OF wr] t1 by simp
  show ?case
  proof (cases "r = 0")
    case True
    then show ?thesis
      using rd close_releases [OF t1 "1.prems"(2,3)]
      by (subst cat_loop.simps) (simp add: split_beta)
  next
    case r0: False
    show ?thesis
    proof (cases "r = - 1")
      case True
      then show ?thesis
        using rd r0 cat_fail_releases [OF t1 "1.prems"(2,3)]
        by (subst cat_loop.simps) simp
    next
      case r1: False
      show ?thesis
      proof (cases "w = r")
        case False
        then show ?thesis
          using rd wr r0 r1 cat_fail_releases [OF t2 "1.prems"(2,3)]
          by (subst cat_loop.simps) simp
      next
        case True
        have t3: "fdtab (printf s2 nl) = (fd, evs1) # tab"
          using t2 by (simp add: printf_def)
        have "fdtab (snd (cat_loop (printf s2 nl) fd)) = tab"
          using "1.IH" [OF rd [symmetric] r0 r1 wr [symmetric] _ t3 "1.prems"(2,3)] True
          by simp
        then show ?thesis
          using rd wr r0 r1 True by (subst cat_loop.simps) simp
      qed
    qed
  qed
qed

lemma readdir_keeps_head:
  assumes "dirtab s = (d, evs) # tab" and "d \<notin> fst ` set tab"
    and "sys_readdir s d = (r, s1)"
  shows "\<exists>evs'. dirtab s1 = (d, evs') # tab"
  using assms
  by (auto simp: sys_readdir_def sys_def Let_def set_entry_head
      split: list.splits dir_event.splits if_splits)

lemma closedir_releases:
  assumes "dirtab s = (d, evs) # tab" and "d \<notin> fst ` set tab"
  shows "dirtab (snd (sys_closedir s d)) = tab"
  using assms by (simp add: sys_closedir_def sys_def Let_def drop_entry_head)

lemma ls_loop_releases:
  "dirtab s = (d, evs) # tab \<Longrightarrow> d \<notin> fst ` set tab \<Longrightarrow>
   dirtab (snd (ls_loop s d)) = tab"
proof (induction s d arbitrary: evs rule: ls_loop.induct)
  case (1 s dir)
  obtain r s1 where rd: "sys_readdir s dir = (r, s1)"
    by (cases "sys_readdir s dir")
  from readdir_keeps_head [OF "1.prems"(1,2) rd]
  obtain evs1 where t1: "dirtab s1 = (dir, evs1) # tab" by blast
  show ?case
  proof (cases r)
    case None
    then show ?thesis
      using rd closedir_releases [OF t1 "1.prems"(2)]
      by (subst ls_loop.simps) (simp add: split_beta)
  next
    case (Some name)
    show ?thesis
    proof (cases "errno s1 = 0")
      case True
      have t2: "dirtab (printf s1 (name @ nl)) = (dir, evs1) # tab"
        using t1 by (simp add: printf_def)
      have "dirtab (snd (ls_loop (printf s1 (name @ nl)) dir)) = tab"
        using "1.IH" [OF rd [symmetric] Some True t2 "1.prems"(2)] by simp
      then show ?thesis
        using rd Some True by (subst ls_loop.simps) simp
    next
      case False
      have t2: "dirtab (fprintf_stderr s1 msg) = (dir, evs1) # tab" for msg
        using t1 by (simp add: fprintf_stderr_def)
      show ?thesis
        using rd Some False closedir_releases [OF t2 "1.prems"(2)]
        by (subst ls_loop.simps) (simp add: split_beta Let_def)
    qed
  qed
qed

lemma do_cat_releases: "fdtab (snd (do_cat s name)) = fdtab s"
proof (cases "files (env s) name")
  case (Inl e)
  then show ?thesis
    by (simp add: do_cat_def sys_open_def sys_close_def sys_def Let_def fprintf_stderr_def)
next
  case (Inr evs)
  let ?fd = "fresh (fdtab s)"
  obtain s1 where op: "sys_open s name O_RDONLY = (?fd, s1)" and t1: "fdtab s1 = (?fd, evs) # fdtab s"
    using Inr by (simp add: sys_open_def Let_def sys_def)
  have ge: "0 \<le> ?fd" and ne: "?fd \<noteq> - 1"
    using fresh_ge [of "fdtab s"] by simp_all
  have "fdtab (snd (cat_loop s1 ?fd)) = fdtab s"
    by (rule cat_loop_releases [OF t1 fresh_notin ge])
  then show ?thesis
    using ne by (simp add: do_cat_def op)
qed

lemma do_ls_releases: "dirtab (snd (do_ls s name)) = dirtab s"
proof (cases "dirs (env s) name")
  case (Inl e)
  then show ?thesis
    by (simp add: do_ls_def sys_opendir_def sys_def Let_def fprintf_stderr_def)
next
  case (Inr evs)
  let ?d = "fresh (dirtab s)"
  obtain s1 where op: "sys_opendir s name = (Some ?d, s1)"
    and t1: "dirtab (s1\<lparr>errno := 0\<rparr>) = (?d, evs) # dirtab s"
    using Inr by (simp add: sys_opendir_def Let_def sys_def)
  have "dirtab (snd (ls_loop (s1\<lparr>errno := 0\<rparr>) ?d)) = dirtab s"
    by (rule ls_loop_releases [OF t1 fresh_notin])
  then show ?thesis
    by (simp add: do_ls_def op)
qed

text \<open>
  Claim C8. Whatever the system answers, \<open>do_cat\<close> and \<open>do_ls\<close> leave the tables of
  open descriptors and open directory streams as they found them: the descriptor
  that \<open>do_cat\<close> opened is closed when the file ends and when a \<open>read\<close> or a \<open>write\<close>
  fails or is short; the stream that \<open>do_ls\<close> opened is closed when the directory
  ends, when \<open>readdir\<close> fails, and on the error branch of the loop; a failed \<open>open\<close>
  or \<open>opendir\<close> adds nothing to the tables.
\<close>

theorem handles_released:
  "fdtab (snd (do_cat s name)) = fdtab s \<and> dirtab (snd (do_ls s dirname)) = dirtab s"
  by (simp add: do_cat_releases do_ls_releases)

section \<open>The output of cat\<close>

lemma cat_loop_chunks:
  "map_of (fdtab s) fd = Some (map Chunk cs) \<Longrightarrow> 0 \<le> fd \<Longrightarrow>
   \<forall>c \<in> set cs. c \<noteq> [] \<and> length c \<le> BUFFER_SIZE \<Longrightarrow> wscript s = [] \<Longrightarrow>
   fst (cat_loop s fd) = Returned 0 \<and>
   out (snd (cat_loop s fd)) = out s @ concat (map (\<lambda>c. c @ nl) cs) \<and>
   err (snd (cat_loop s fd)) = err s \<and>
   trace (snd (cat_loop s fd)) =
     trace s @ concat (map (\<lambda>c. [SysRead fd BUFFER_SIZE, SysWrite (length c)]) cs)
     @ [SysRead fd BUFFER_SIZE, SysClose fd]"
proof (induction cs arbitrary: s)
  case Nil
  then show ?case
    by (subst (1 2 3 4) cat_loop.simps)
       (simp add: sys_read_def sys_close_def sys_def Let_def)
next
  case (Cons c cs)
  define s1 where "s1 = (sys (SysRead fd BUFFER_SIZE) s)
      \<lparr>buffer := c @ drop (length c) (buffer s),
        fdtab := set_entry (fdtab s) fd (map Chunk cs)\<rparr>"
  define s2 where "s2 = (sys (SysWrite (length c)) s1)\<lparr>out := out s @ c\<rparr>"
  have c: "c \<noteq> []" "length c \<le> BUFFER_SIZE"
    using Cons.prems(3) by simp_all
  have rd: "sys_read s fd BUFFER_SIZE = (int (length c), s1)"
    using Cons.prems(1) c by (simp add: sys_read_def Let_def s1_def)
  have wr: "sys_write s1 (length c) = (int (length c), s2)"
    using Cons.prems(4) by (simp add: sys_write_def Let_def s1_def s2_def sys_def)
  define r where "r = cat_loop (printf s2 nl) fd"
  have step: "cat_loop s fd = r"
    using rd wr c unfolding r_def by (subst cat_loop.simps) simp
  have tab: "map_of (fdtab (printf s2 nl)) fd = Some (map Chunk cs)"
    using map_of_set_entry [OF Cons.prems(1)]
    by (simp add: printf_def s2_def s1_def sys_def)
  have ws: "wscript (printf s2 nl) = []"
    using Cons.prems(4) by (simp add: printf_def s2_def s1_def sys_def)
  have rest: "\<forall>c \<in> set cs. c \<noteq> [] \<and> length c \<le> BUFFER_SIZE"
    using Cons.prems(3) by simp
  have o: "out (printf s2 nl) = out s @ c @ nl" and e: "err (printf s2 nl) = err s"
    and t: "trace (printf s2 nl) = trace s @ [SysRead fd BUFFER_SIZE, SysWrite (length c)]"
    by (simp_all add: printf_def s2_def s1_def sys_def)
  have "fst r = Returned 0 \<and> out (snd r) = out s @ c @ nl @ concat (map (\<lambda>c. c @ nl) cs)
      \<and> err (snd r) = err s
      \<and> trace (snd r) = trace s @ [SysRead fd BUFFER_SIZE, SysWrite (length c)]
          @ concat (map (\<lambda>c. [SysRead fd BUFFER_SIZE, SysWrite (length c)]) cs)
          @ [SysRead fd BUFFER_SIZE, SysClose fd]"
    using Cons.IH [OF tab Cons.prems(2) rest ws] unfolding r_def by (simp add: o e t)
  then show ?case
    unfolding step by simp
qed

lemma do_cat_chunks:
  assumes "files (env s) name = Inr (map Chunk cs)"
    and "\<forall>c \<in> set cs. c \<noteq> [] \<and> length c \<le> BUFFER_SIZE" and "wscript s = []"
  shows "fst (do_cat s name) = Returned 0 \<and>
     out (snd (do_cat s name)) = out s @ concat (map (\<lambda>c. c @ nl) cs) \<and>
     err (snd (do_cat s name)) = err s \<and>
     trace (snd (do_cat s name)) =
       trace s @ [SysOpen name O_RDONLY]
       @ concat (map (\<lambda>c. [SysRead (fresh (fdtab s)) BUFFER_SIZE, SysWrite (length c)]) cs)
       @ [SysRead (fresh (fdtab s)) BUFFER_SIZE, SysClose (fresh (fdtab s))]"
proof -
  let ?fd = "fresh (fdtab s)"
  define s1 where "s1 = (sys (SysOpen name O_RDONLY) s)\<lparr>fdtab := (?fd, map Chunk cs) # fdtab s\<rparr>"
  have op: "sys_open s name O_RDONLY = (?fd, s1)"
    using assms(1) by (simp add: sys_open_def Let_def s1_def)
  have ge: "0 \<le> ?fd" and ne: "?fd \<noteq> - 1"
    using fresh_ge [of "fdtab s"] by simp_all
  have tab: "map_of (fdtab s1) ?fd = Some (map Chunk cs)" and ws: "wscript s1 = []"
    and o: "out s1 = out s" and e: "err s1 = err s" and t: "trace s1 = trace s @ [SysOpen name O_RDONLY]"
    using assms(3) by (simp_all add: s1_def sys_def)
  have run: "do_cat s name = cat_loop s1 ?fd"
    using ne by (simp add: do_cat_def op)
  show ?thesis
    unfolding run using cat_loop_chunks [OF tab ge assms(2) ws] by (simp add: o e t)
qed

lemma do_cat_open_fails:
  assumes "files (env s) name = Inl e"
  shows "do_cat s name =
     (Returned (- 1),
      s\<lparr>trace := trace s @ [SysOpen name O_RDONLY, SysClose (- 1)], errno := EBADF,
        err := err s @ [''cat: Cannot open file. '' @ strerror EBADF @ nl]\<rparr>)"
  using assms
  by (simp add: do_cat_def sys_open_def sys_close_def sys_def Let_def fprintf_stderr_def)

lemma pieces_short:
  assumes "xs \<noteq> []" and "length xs \<le> n"
  shows "pieces n xs = [xs]"
proof -
  have "0 < n" using assms by (cases xs) auto
  then show ?thesis
    using assms by (subst pieces.simps, subst pieces.simps) simp
qed

lemma pieces_long:
  "0 < n \<Longrightarrow> n < length xs \<Longrightarrow> pieces n xs = take n xs # pieces n (drop n xs)"
  by (subst pieces.simps) auto

lemma cat_loop_regular:
  "map_of (fdtab s) fd = Some [Chunk data] \<Longrightarrow> 0 \<le> fd \<Longrightarrow> wscript s = [] \<Longrightarrow>
   fst (cat_loop s fd) = Returned 0 \<and>
   out (snd (cat_loop s fd)) = out s @ concat (map (\<lambda>c. c @ nl) (pieces BUFFER_SIZE data)) \<and>
   err (snd (cat_loop s fd)) = err s"
proof (induction "length data" arbitrary: s data rule: less_induct)
  case less
  consider "data = []" | "data \<noteq> []" "length data \<le> BUFFER_SIZE" | "BUFFER_SIZE < length data"
    by linarith
  then show ?case
  proof cases
    case 1
    then show ?thesis
      using less.prems map_of_set_entry [OF less.prems(1), of "[]"]
      by (subst (1 2 3) cat_loop.simps)
         (simp add: sys_read_def sys_close_def sys_def Let_def pieces.simps)
  next
    case 2
    have tab: "map_of (fdtab s) fd = Some (map Chunk [data])"
      using less.prems(1) by simp
    have ok: "\<forall>c \<in> set [data]. c \<noteq> [] \<and> length c \<le> BUFFER_SIZE"
      using 2 by simp
    show ?thesis
      using cat_loop_chunks [OF tab less.prems(2) ok less.prems(3)] pieces_short [OF 2]
      by simp
  next
    case 3
    let ?c = "take BUFFER_SIZE data"
    have lc: "length ?c = BUFFER_SIZE" using 3 by simp
    define s1 where "s1 = (sys (SysRead fd BUFFER_SIZE) s)
      \<lparr>buffer := ?c @ drop BUFFER_SIZE (buffer s),
        fdtab := set_entry (fdtab s) fd [Chunk (drop BUFFER_SIZE data)]\<rparr>"
    define s2 where "s2 = (sys (SysWrite BUFFER_SIZE) s1)\<lparr>out := out s @ ?c\<rparr>"
    have rd: "sys_read s fd BUFFER_SIZE = (int BUFFER_SIZE, s1)"
      using less.prems(1) 3 by (simp add: sys_read_def Let_def s1_def)
    have "take BUFFER_SIZE (buffer s1) = ?c"
      using lc by (simp add: s1_def)
    then have wr: "sys_write s1 BUFFER_SIZE = (int BUFFER_SIZE, s2)"
      using less.prems(3) lc by (simp add: sys_write_def Let_def s1_def s2_def sys_def)
    define r where "r = cat_loop (printf s2 nl) fd"
    have step: "cat_loop s fd = r"
      using rd wr unfolding r_def by (subst cat_loop.simps) (simp add: BUFFER_SIZE_def)
    have tab: "map_of (fdtab (printf s2 nl)) fd = Some [Chunk (drop BUFFER_SIZE data)]"
      using map_of_set_entry [OF less.prems(1)]
      by (simp add: printf_def s2_def s1_def sys_def)
    have ws: "wscript (printf s2 nl) = []"
      using less.prems(3) by (simp add: printf_def s2_def s1_def sys_def)
    have o: "out (printf s2 nl) = out s @ ?c @ nl" and e: "err (printf s2 nl) = err s"
      by (simp_all add: printf_def s2_def s1_def sys_def)
    have shorter: "length (drop BUFFER_SIZE data) < length data"
      using 3 by (simp add: BUFFER_SIZE_def)
    have "fst r = Returned 0 \<and>
        out (snd r) = out s @ ?c @ nl
          @ concat (map (\<lambda>c. c @ nl) (pieces BUFFER_SIZE (drop BUFFER_SIZE data))) \<and>
        err (snd r) = err s"
      using less.hyps [OF shorter tab less.prems(2) ws] unfolding r_def by (simp add: o e)
    moreover have "pieces BUFFER_SIZE data = ?c # pieces BUFFER_SIZE (drop BUFFER_SIZE data)"
      using 3 by (intro pieces_long) (simp_all add: BUFFER_SIZE_def)
    ultimately show ?thesis
      unfolding step by simp
  qed
qed

lemma do_cat_regular:
  assumes "files (env s) name = Inr [Chunk data]" and "wscript s = []"
  shows "fst (do_cat s name) = Returned 0 \<and>
     out (snd (do_cat s name)) = out s @ concat (map (\<lambda>c. c @ nl) (pieces BUFFER_SIZE data)) \<and>
     err (snd (do_cat s name)) = err s"
proof -
  let ?fd = "fresh (fdtab s)"
  define s1 where "s1 = (sys (SysOpen name O_RDONLY) s)\<lparr>fdtab := (?fd, [Chunk data]) # fdtab s\<rparr>"
  have op: "sys_open s name O_RDONLY = (?fd, s1)"
    using assms(1) by (simp add: sys_open_def Let_def s1_def)
  have ge: "0 \<le> ?fd" and ne: "?fd \<noteq> - 1"
    using fresh_ge [of "fdtab s"] by simp_all
  have tab: "map_of (fdtab s1) ?fd = Some [Chunk data]" and ws: "wscript s1 = []"
    and o: "out s1 = out s" and e: "err s1 = err s"
    using assms(2) by (simp_all add: s1_def sys_def)
  have run: "do_cat s name = cat_loop s1 ?fd"
    using ne by (simp add: do_cat_def op)
  show ?thesis
    unfolding run using cat_loop_regular [OF tab ge ws] by (simp add: o e)
qed

text \<open>
  Claim C3. Every \<open>read\<close> of \<open>do_cat\<close> asks for \<open>BUFFER_SIZE\<close> = 256 bytes. When the
  reads deliver the non-empty chunks \<open>cs\<close>, none longer than 256 bytes, and then the
  zero-length read, and standard output takes what it is given, \<open>do_cat\<close> writes
  each chunk as it came, one newline after each, reads until the zero-length read,
  closes, and returns 0. A file whose bytes are all there to be read comes in
  pieces of 256 bytes, with a newline after each piece and after the shorter last
  one. So a file that comes as the one chunk \<open>data\<close> gives \<open>data\<close> and one newline.
  When \<open>open\<close> fails, nothing goes to standard output, one line goes to standard
  error, and the result is -1.
\<close>

theorem do_cat_output:
  "(files (env s) name = Inr (map Chunk cs) \<and>
    (\<forall>c \<in> set cs. c \<noteq> [] \<and> length c \<le> BUFFER_SIZE) \<and> wscript s = [] \<longrightarrow>
      fst (do_cat s name) = Returned 0 \<and>
      out (snd (do_cat s name)) = out s @ concat (map (\<lambda>c. c @ nl) cs) \<and>
      err (snd (do_cat s name)) = err s \<and>
      trace (snd (do_cat s name)) =
        trace s @ [SysOpen name O_RDONLY]
        @ concat (map (\<lambda>c. [SysRead (fresh (fdtab s)) BUFFER_SIZE, SysWrite (length c)]) cs)
        @ [SysRead (fresh (fdtab s)) BUFFER_SIZE, SysClose (fresh (fdtab s))]) \<and>
   (files (env s) name = Inr [Chunk whole] \<and> wscript s = [] \<longrightarrow>
      fst (do_cat s name) = Returned 0 \<and>
      out (snd (do_cat s name)) =
        out s @ concat (map (\<lambda>c. c @ nl) (pieces BUFFER_SIZE whole)) \<and>
      err (snd (do_cat s name)) = err s) \<and>
   (files (env s) name = Inr [Chunk data] \<and> data \<noteq> [] \<and> length data < BUFFER_SIZE \<and>
    wscript s = [] \<longrightarrow>
      fst (do_cat s name) = Returned 0 \<and>
      out (snd (do_cat s name)) = out s @ data @ nl \<and>
      err (snd (do_cat s name)) = err s) \<and>
   (files (env s) name = Inl e \<longrightarrow>
      fst (do_cat s name) = Returned (- 1) \<and>
      out (snd (do_cat s name)) = out s \<and>
      err (snd (do_cat s name)) = err s @ [''cat: Cannot open file. '' @ strerror EBADF @ nl])"
proof (intro conjI impI)
  assume a: "files (env s) name = Inr [Chunk data] \<and> data \<noteq> [] \<and> length data < BUFFER_SIZE \<and>
    wscript s = []"
  then have f: "files (env s) name = Inr (map Chunk [data])"
    and b: "\<forall>c \<in> set [data]. c \<noteq> [] \<and> length c \<le> BUFFER_SIZE" and w: "wscript s = []"
    by simp_all
  from do_cat_chunks [OF f b w]
  show "fst (do_cat s name) = Returned 0"
    and "out (snd (do_cat s name)) = out s @ data @ nl"
    and "err (snd (do_cat s name)) = err s"
    by simp_all
qed (simp_all add: do_cat_chunks do_cat_regular do_cat_open_fails)

theorem do_cat_output_witness:
  "fst (do_cat (idle\<lparr>env := hello_env\<rparr>) ''f'') = Returned 0 \<and>
   out (snd (do_cat (idle\<lparr>env := hello_env\<rparr>) ''f'')) = ''hello'' @ nl \<and>
   err (snd (do_cat (idle\<lparr>env := hello_env\<rparr>) ''f'')) = [] \<and>
   trace (snd (do_cat (idle\<lparr>env := hello_env\<rparr>) ''f'')) =
     [SysOpen ''f'' O_RDONLY, SysRead 3 256, SysWrite 5, SysRead 3 256, SysClose 3] \<and>
   out (snd (do_cat (idle\<lparr>env := hello_env\<rparr>) ''big'')) =
     replicate 256 (CHR ''a'') @ nl @ replicate 44 (CHR ''a'') @ nl \<and>
   fst (do_cat (idle\<lparr>env := hello_env\<rparr>) ''g'') = Returned (- 1) \<and>
   out (snd (do_cat (idle\<lparr>env := hello_env\<rparr>) ''g'')) = [] \<and>
   err (snd (do_cat (idle\<lparr>env := hello_env\<rparr>) ''g'')) =
     [''cat: Cannot open file. Bad file descriptor'' @ nl]"
  using do_cat_output [of "idle\<lparr>env := hello_env\<rparr>" "''f''" "[''hello'']" "''hello''"
      "''hello''" ENOENT]
    do_cat_output [of "idle\<lparr>env := hello_env\<rparr>" "''g''" "[]" "[]" "[]" ENOENT]
    do_cat_output [of "idle\<lparr>env := hello_env\<rparr>" "''big''" "[]"
      "replicate 300 (CHR ''a'')" "[]" ENOENT]
  by (simp add: idle_def hello_env_def quiet_env_def BUFFER_SIZE_def fresh_def strerror_def
      EBADF_def pieces.simps)

section \<open>Outcomes and reports of the built-ins\<close>

lemma path_builtins_outcome:
  "do_mkdir s p =
     (case mkdir_res (env s) p of
        None \<Rightarrow> (Returned 0, sys (SysMkdir p mode_0777) s)
      | Some e \<Rightarrow>
          (Returned (- 1),
           fprintf_stderr ((sys (SysMkdir p mode_0777) s)\<lparr>errno := e\<rparr>)
             (''mkdir: Cannot create directory. '' @ strerror e @ ''.'' @ nl)))"
  "do_rmdir s p =
     (case rmdir_res (env s) p of
        None \<Rightarrow> (Returned 0, sys (SysRmdir p) s)
      | Some e \<Rightarrow>
          (Returned (- 1),
           fprintf_stderr ((sys (SysRmdir p) s)\<lparr>errno := e\<rparr>)
             (''rmdir: Cannot remove directory. '' @ strerror e @ ''.'' @ nl)))"
  "do_rm s p =
     (case unlink_res (env s) p of
        None \<Rightarrow> (Returned 0, sys (SysUnlink p) s)
      | Some e \<Rightarrow>
          (Returned (- 1),
           fprintf_stderr ((sys (SysUnlink p) s)\<lparr>errno := e\<rparr>)
             (''rm: Cannot remove file. '' @ strerror e @ ''.'' @ nl)))"
  "do_stat s p =
     (case stat_res (env s) p of
        Inr st \<Rightarrow> (Returned 0, printf (sys (SysStat p) s) (stat_report p st))
      | Inl e \<Rightarrow>
          (Returned (- 1),
           fprintf_stderr ((sys (SysStat p) s)\<lparr>errno := e\<rparr>)
             (''stat: Cannot retrieve file stats. '' @ strerror e @ ''.'' @ nl)))"
  by (simp_all add: do_mkdir_def do_rmdir_def do_rm_def do_stat_def sys_mkdir_def sys_rmdir_def
      sys_unlink_def sys_stat_def sys_path_call_def Let_def
      split: option.splits sum.splits)

text \<open>
  Claim C4 does not hold of \<open>do_ls\<close> and \<open>do_cat\<close>. When \<open>readdir\<close> fails in the middle
  of a directory it returns NULL, the loop of \<open>do_ls\<close> ends as at the end of the
  directory, and \<open>do_ls\<close> returns 0 with nothing on standard error: the test of
  \<open>errno\<close> stands inside the loop, where it is not reached. When \<open>open\<close> fails,
  \<open>do_cat\<close> calls \<open>close(-1)\<close> before it reads \<open>errno\<close>, so the line it prints gives
  the reason of the failed \<open>close\<close>, not that of the failed \<open>open\<close>.
\<close>

theorem ls_and_cat_misreport:
  "fst (do_ls (idle\<lparr>env := broken_dir_env\<rparr>) ''.'') = Returned 0 \<and>
   err (snd (do_ls (idle\<lparr>env := broken_dir_env\<rparr>) ''.'')) = [] \<and>
   out (snd (do_ls (idle\<lparr>env := broken_dir_env\<rparr>) ''.'')) = ''.'' @ nl \<and>
   errno (snd (do_ls (idle\<lparr>env := broken_dir_env\<rparr>) ''.'')) = 5 \<and>
   trace (snd (do_ls (idle\<lparr>env := broken_dir_env\<rparr>) ''.'')) =
     [SysOpendir ''.'', SysReaddir 3, SysReaddir 3, SysClosedir 3] \<and>
   files (env idle) ''missing'' = Inl ENOENT \<and>
   fst (do_cat idle ''missing'') = Returned (- 1) \<and>
   err (snd (do_cat idle ''missing'')) = [''cat: Cannot open file. Bad file descriptor'' @ nl] \<and>
   strerror ENOENT = ''No such file or directory''"
  by (simp add: do_ls_def ls_loop.simps sys_opendir_def sys_readdir_def sys_closedir_def
      sys_def Let_def printf_def fprintf_stderr_def fresh_def set_entry_def drop_entry_def
      idle_def broken_dir_env_def quiet_env_def do_cat_def sys_open_def sys_close_def
      strerror_def EBADF_def ENOENT_def)


text \<open>
  Claim C5, as the source has it. With a non-empty argument \<open>do_cd\<close> hands it to
  \<open>chdir\<close> as it is. When the system accepts it, the working directory is the
  directory that the argument names, the result is 0 and nothing is written;
  \<open>do_pwd\<close> run next prints that directory when \<open>getcwd\<close> delivers it, that is, when
  the system does not refuse and the absolute path is shorter than
  \<open>MAX_PATH_LENGTH\<close> = 256 bytes. When the system refuses the argument, the working
  directory is as before, standard error gets the one line \<open>cd: \<close> and the reason,
  and the result is -1.
\<close>

theorem do_cd_argument:
  assumes "strnlen (filename s) MAX_PATH_LENGTH \<noteq> 0"
  shows
    "(resolve_dir (env s) (cwd s) (filename s) = Inr d \<longrightarrow>
        fst (do_cd s) = Returned 0 \<and> cwd (snd (do_cd s)) = d \<and>
        err (snd (do_cd s)) = err s \<and> out (snd (do_cd s)) = out s \<and>
        trace (snd (do_cd s)) = trace s @ [SysGetpwuid, SysChdir (filename s)] \<and>
        (getcwd_fail (env s) = None \<and> length d < MAX_PATH_LENGTH \<longrightarrow>
           out (snd (do_pwd (snd (do_cd s)))) = out s @ d @ nl \<and>
           err (snd (do_pwd (snd (do_cd s)))) = err s)) \<and>
     (resolve_dir (env s) (cwd s) (filename s) = Inl e \<longrightarrow>
        fst (do_cd s) = Returned (- 1) \<and> cwd (snd (do_cd s)) = cwd s \<and>
        err (snd (do_cd s)) = err s @ [''cd: '' @ strerror e @ nl] \<and>
        out (snd (do_cd s)) = out s \<and>
        trace (snd (do_cd s)) = trace s @ [SysGetpwuid, SysChdir (filename s)])"
  using assms
  by (auto simp: do_cd_def sys_getpwuid_def sys_chdir_def sys_def Let_def fprintf_stderr_def
      do_pwd_def sys_getcwd_def printf_def)

theorem do_cd_argument_witness:
  "fst (do_cd (idle\<lparr>filename := ''/tmp'', env := tmp_env\<rparr>)) = Returned 0 \<and>
   cwd (snd (do_cd (idle\<lparr>filename := ''/tmp'', env := tmp_env\<rparr>))) = ''/tmp'' \<and>
   err (snd (do_cd (idle\<lparr>filename := ''/tmp'', env := tmp_env\<rparr>))) = [] \<and>
   out (snd (do_pwd (snd (do_cd (idle\<lparr>filename := ''/tmp'', env := tmp_env\<rparr>))))) =
     ''/tmp'' @ nl \<and>
   fst (do_cd (idle\<lparr>filename := ''nowhere'', env := tmp_env\<rparr>)) = Returned (- 1) \<and>
   cwd (snd (do_cd (idle\<lparr>filename := ''nowhere'', env := tmp_env\<rparr>))) = ''/'' \<and>
   err (snd (do_cd (idle\<lparr>filename := ''nowhere'', env := tmp_env\<rparr>))) =
     [''cd: No such file or directory'' @ nl]"
  using do_cd_argument [of "idle\<lparr>filename := ''/tmp'', env := tmp_env\<rparr>" "''/tmp''" ENOENT]
    do_cd_argument [of "idle\<lparr>filename := ''nowhere'', env := tmp_env\<rparr>" "''/tmp''" ENOENT]
  by (simp add: idle_def tmp_env_def quiet_env_def strnlen_def cstr_def NUL_def
      MAX_PATH_LENGTH_def strerror_def ENOENT_def)

text \<open>
  Without the bound the query after a successful \<open>cd\<close> does not report the
  directory: \<open>deep\<close> is a valid directory, \<open>do_cd\<close> returns 0 and the working
  directory is the 256-byte path, but \<open>do_pwd\<close> run next prints the bytes of its
  unwritten array and reports that the result is out of range.
\<close>

theorem long_path_counterexample:
  "resolve_dir (env (idle\<lparr>filename := ''deep'', env := deep_env\<rparr>)) ''/'' ''deep'' =
     Inr (CHR ''/'' # replicate 255 (CHR ''a'')) \<and>
   fst (do_cd (idle\<lparr>filename := ''deep'', env := deep_env\<rparr>)) = Returned 0 \<and>
   cwd (snd (do_cd (idle\<lparr>filename := ''deep'', env := deep_env\<rparr>))) =
     CHR ''/'' # replicate 255 (CHR ''a'') \<and>
   err (snd (do_cd (idle\<lparr>filename := ''deep'', env := deep_env\<rparr>))) = [] \<and>
   out (snd (do_pwd (snd (do_cd (idle\<lparr>filename := ''deep'', env := deep_env\<rparr>))))) =
     ''junk'' @ nl \<and>
   err (snd (do_pwd (snd (do_cd (idle\<lparr>filename := ''deep'', env := deep_env\<rparr>))))) =
     [''pwd: Could not find current directory. Numerical result out of range.'' @ nl]"
  by (simp add: do_cd_def do_pwd_def sys_getpwuid_def sys_chdir_def sys_getcwd_def sys_def
      Let_def printf_def fprintf_stderr_def idle_def deep_env_def quiet_env_def strnlen_def
      cstr_def NUL_def MAX_PATH_LENGTH_def strerror_def ERANGE_def)

text \<open>
  \<open>do_cd\<close> with an empty argument, for every state: the user database is asked
  first; a record whose home directory fits \<open>filename\<close> is copied there and handed to
  \<open>chdir\<close>; with no record the next step is \<open>p->pw_dir\<close> on a NULL \<open>p\<close>.
\<close>

lemma do_cd_home:
  assumes "strnlen (filename s) MAX_PATH_LENGTH = 0"
  shows
    "(pw_entry (env s) = None \<longrightarrow> do_cd s = (Crashed NullDereference, sys SysGetpwuid s)) \<and>
     (pw_entry (env s) = Some pw \<and> length (pw_dir pw) < MAX_PATH_LENGTH \<longrightarrow>
        filename (snd (do_cd s)) = pw_dir pw \<and>
        trace (snd (do_cd s)) = trace s @ [SysGetpwuid, SysChdir (pw_dir pw)] \<and>
        (resolve_dir (env s) (cwd s) (pw_dir pw) = Inr d \<longrightarrow>
           fst (do_cd s) = Returned 0 \<and> cwd (snd (do_cd s)) = d \<and>
           err (snd (do_cd s)) = err s) \<and>
        (resolve_dir (env s) (cwd s) (pw_dir pw) = Inl e \<longrightarrow>
           fst (do_cd s) = Returned (- 1) \<and> cwd (snd (do_cd s)) = cwd s \<and>
           err (snd (do_cd s)) = err s @ [''cd: '' @ strerror e @ nl])) \<and>
     (pw_entry (env s) = Some pw \<and> MAX_PATH_LENGTH \<le> length (pw_dir pw) \<longrightarrow>
        do_cd s = (Crashed OutOfBoundsRead, sys SysGetpwuid s))"
  using assms
  by (auto simp: do_cd_def sys_getpwuid_def sys_chdir_def sys_def Let_def fprintf_stderr_def
      split: sum.splits)

text \<open>
  Claim C7 does not hold of \<open>do_cd\<close>. The source takes \<open>p->pw_dir\<close> without a test of
  \<open>p\<close>: with an empty argument and no record in the user database, the result of
  \<open>getpwuid\<close> is dereferenced unchecked. Nothing is reported, -1 is not returned;
  the run ends in the dereference of NULL, which C leaves undefined and which
  is recorded here as a fault. A home directory of \<open>MAX_PATH_LENGTH\<close> bytes or more
  is not substituted either: \<open>strncpy\<close> fills \<open>filename\<close> without a terminator and
  \<open>chdir\<close> reads past the array.
\<close>

theorem do_cd_unchecked_lookup:
  "pw_entry (env idle) = None \<and>
   strnlen (filename idle) MAX_PATH_LENGTH = 0 \<and>
   do_cd idle = (Crashed NullDereference, idle\<lparr>trace := [SysGetpwuid]\<rparr>) \<and>
   pw_entry (env (idle\<lparr>env := long_home_env\<rparr>)) =
     Some \<lparr>pw_name = ''u'', pw_dir = CHR ''/'' # replicate 255 (CHR ''h'')\<rparr> \<and>
   do_cd (idle\<lparr>env := long_home_env\<rparr>) =
     (Crashed OutOfBoundsRead, idle\<lparr>env := long_home_env, trace := [SysGetpwuid]\<rparr>)"
  by (simp add: do_cd_def sys_getpwuid_def sys_def idle_def quiet_env_def long_home_env_def
      strnlen_def cstr_def MAX_PATH_LENGTH_def)

section \<open>Lines of white space\<close>

lemma dispatch_Nil: "dispatch s [] = Next s"
  by (simp add: execute_command_def dispatch_def sscanf_verb_def strncmp_eq_def
      invalid_command_def ignore_result_def BUFFER_SIZE_def)

lemma isspace_NUL [simp]: "\<not> isspace NUL"
  by (simp add: isspace_def NUL_def)

lemma strip_loop_frame:
  "strip_loop s i = Some s' \<Longrightarrow> \<exists>b u. s' = s\<lparr>below := b, buffer := u\<rparr>"
proof (induction s i rule: strip_loop.induct)
  case (1 s i)
  from "1.prems" obtain c where pk: "peek s i = Some c"
    by (subst (asm) strip_loop.simps) (auto split: option.splits)
  show ?case
  proof (cases "isspace c")
    case False
    with pk "1.prems" have "s' = s"
      by (subst (asm) strip_loop.simps) simp
    then have "s' = s\<lparr>below := below s, buffer := buffer s\<rparr>" by simp
    then show ?thesis by blast
  next
    case True
    with pk "1.prems" have "strip_loop (poke s i NUL) (i - 1) = Some s'"
      by (subst (asm) strip_loop.simps) simp
    from "1.IH" [OF pk True this]
    obtain b u where "s' = (poke s i NUL)\<lparr>below := b, buffer := u\<rparr>" by blast
    then have "s' = s\<lparr>below := b, buffer := u\<rparr>"
      by (simp add: poke_def split: if_splits)
    then show ?thesis by blast
  qed
qed

lemma strip_loop_below_only:
  "strip_loop s i = Some s' \<Longrightarrow> i < 0 \<Longrightarrow> buffer s' = buffer s"
proof (induction s i rule: strip_loop.induct)
  case (1 s i)
  from "1.prems"(1) obtain c where pk: "peek s i = Some c"
    by (subst (asm) strip_loop.simps) (auto split: option.splits)
  show ?case
  proof (cases "isspace c")
    case False
    with pk "1.prems" show ?thesis
      by (subst (asm) strip_loop.simps) simp
  next
    case True
    with pk "1.prems" have run: "strip_loop (poke s i NUL) (i - 1) = Some s'"
      by (subst (asm) strip_loop.simps) simp
    have "buffer s' = buffer (poke s i NUL)"
      using "1.IH" [OF pk True run] "1.prems"(2) by simp
    then show ?thesis
      using "1.prems"(2) by (simp add: poke_def)
  qed
qed

lemma strip_loop_clears:
  "strip_loop s i = Some s' \<Longrightarrow> 0 \<le> i \<Longrightarrow> nat i < length (buffer s) \<Longrightarrow>
   \<forall>j \<le> nat i. isspace (buffer s ! j) \<Longrightarrow>
   buffer s' \<noteq> [] \<and> buffer s' ! 0 = NUL"
proof (induction s i rule: strip_loop.induct)
  case (1 s i)
  have pk: "peek s i = Some (buffer s ! nat i)"
    using "1.prems"(2,3) by (simp add: peek_def)
  have sp: "isspace (buffer s ! nat i)"
    using "1.prems"(4) by simp
  have run: "strip_loop (poke s i NUL) (i - 1) = Some s'"
    using "1.prems"(1) pk sp by (subst (asm) strip_loop.simps) simp
  have pb: "buffer (poke s i NUL) = (buffer s)[nat i := NUL]"
    using "1.prems"(2) by (simp add: poke_def)
  show ?case
  proof (cases "i = 0")
    case True
    have "buffer s' = buffer (poke s i NUL)"
      using strip_loop_below_only [OF run] True by simp
    then show ?thesis
      using pb True "1.prems"(3) by simp
  next
    case False
    have a: "0 \<le> i - 1" and b: "nat (i - 1) < length (buffer (poke s i NUL))"
      using False "1.prems"(2,3) pb by simp_all
    have c: "\<forall>j \<le> nat (i - 1). isspace (buffer (poke s i NUL) ! j)"
    proof (intro allI impI)
      fix j
      assume "j \<le> nat (i - 1)"
      then have "j \<noteq> nat i" and "j \<le> nat i"
        using False "1.prems"(2) by simp_all
      then show "isspace (buffer (poke s i NUL) ! j)"
        using "1.prems"(4) pb by simp
    qed
    show ?thesis
      by (rule "1.IH" [OF pk sp run a b c])
  qed
qed

lemma strip_loop_returns:
  "i < int (length (buffer s)) \<Longrightarrow>
   \<exists>k < length (below s). - i - 1 \<le> int k \<and> \<not> isspace (below s ! k) \<Longrightarrow>
   \<exists>s'. strip_loop s i = Some s'"
proof (induction s i rule: strip_loop.induct)
  case (1 s i)
  from "1.prems"(2) obtain k where k: "k < length (below s)" "- i - 1 \<le> int k"
      "\<not> isspace (below s ! k)"
    by blast
  have "\<exists>c. peek s i = Some c"
  proof (cases "0 \<le> i")
    case True
    then have "nat i < length (buffer s)" using "1.prems"(1) by linarith
    with True show ?thesis by (simp add: peek_def)
  next
    case False
    then have "nat (- i - 1) < length (below s)" using k(1,2) by linarith
    with False show ?thesis by (simp add: peek_def)
  qed
  then obtain c where pk: "peek s i = Some c" by blast
  show ?case
  proof (cases "isspace c")
    case False
    with pk show ?thesis
      by (subst strip_loop.simps) simp
  next
    case True
    have lb: "i - 1 < int (length (buffer (poke s i NUL)))"
      using "1.prems"(1) by (simp add: poke_def)
    have "k < length (below (poke s i NUL)) \<and> - (i - 1) - 1 \<le> int k \<and>
        \<not> isspace (below (poke s i NUL) ! k)"
    proof (cases "0 \<le> i")
      case True
      then show ?thesis using k by (simp add: poke_def)
    next
      case neg: False
      have "int k \<noteq> - i - 1"
      proof
        assume "int k = - i - 1"
        then have "nat (- i - 1) = k" by simp
        with pk neg k(1) have "c = below s ! k" by (simp add: peek_def)
        with True k(3) show False by simp
      qed
      then have "nat (- i - 1) \<noteq> k" and "- (i - 1) - 1 \<le> int k"
        using k(2) neg by auto
      then show ?thesis using k neg by (simp add: poke_def)
    qed
    then have "\<exists>k < length (below (poke s i NUL)). - (i - 1) - 1 \<le> int k \<and>
        \<not> isspace (below (poke s i NUL) ! k)"
      by blast
    from "1.IH" [OF pk True lb this] pk True show ?thesis
      by (subst strip_loop.simps) simp
  qed
qed


lemma strnlen_le: "strnlen bytes n \<le> length bytes"
proof -
  have "length (takeWhile (\<lambda>c. c \<noteq> NUL) (take n bytes)) \<le> length (take n bytes)"
    by (rule length_takeWhile_le)
  then show ?thesis by (simp add: strnlen_def cstr_def)
qed

lemma strnlen_nth:
  assumes "j < strnlen bytes n"
  shows "bytes ! j \<in> set (cstr (take n bytes))"
proof -
  let ?l = "cstr (take n bytes)"
  have j: "j < length ?l" using assms by (simp add: strnlen_def)
  then have "?l ! j = take n bytes ! j"
    unfolding cstr_def by (rule takeWhile_nth)
  moreover have "j < n"
    using j length_takeWhile_le [of "\<lambda>c. c \<noteq> NUL" "take n bytes"] by (simp add: cstr_def)
  ultimately have "?l ! j = bytes ! j" by simp
  then show ?thesis using j by (metis nth_mem)
qed

lemma cstr_empty_take:
  assumes "cstr (take n bytes) = []" and "0 < n"
  shows "cstr bytes = []"
proof (cases bytes)
  case Nil
  then show ?thesis by (simp add: cstr_def)
next
  case (Cons x xs)
  with assms obtain m where "n = Suc m" by (cases n) auto
  with assms Cons show ?thesis by (simp add: cstr_def split: if_splits)
qed

lemma cstr_head_NUL: "u \<noteq> [] \<Longrightarrow> u ! 0 = NUL \<Longrightarrow> cstr u = []"
  by (cases u) (simp_all add: cstr_def)

lemma strip_blank_line:
  assumes blank: "\<forall>c \<in> set (cstr (take BUFFER_SIZE (buffer s))). isspace c"
    and some: "strip_trailing_whitespace s = Some s1"
  shows "\<exists>b u. cstr u = [] \<and> s1 = s\<lparr>below := b, buffer := u\<rparr>"
proof -
  let ?n = "strnlen (buffer s) BUFFER_SIZE"
  have run: "strip_loop s (int ?n - 1) = Some s1"
    using some by (simp add: strip_trailing_whitespace_def)
  from strip_loop_frame [OF run]
  obtain b u where fr: "s1 = s\<lparr>below := b, buffer := u\<rparr>" by blast
  have "cstr (buffer s1) = []"
  proof (cases "?n = 0")
    case True
    then have "buffer s1 = buffer s"
      using strip_loop_below_only [OF run] by simp
    moreover have "cstr (take BUFFER_SIZE (buffer s)) = []"
      using True by (simp add: strnlen_def)
    then have "cstr (buffer s) = []"
      by (rule cstr_empty_take) (simp add: BUFFER_SIZE_def)
    ultimately show ?thesis by simp
  next
    case False
    have a: "0 \<le> int ?n - 1" using False by simp
    have b: "nat (int ?n - 1) < length (buffer s)"
      using False strnlen_le [of "buffer s" BUFFER_SIZE] by simp
    have c: "\<forall>j \<le> nat (int ?n - 1). isspace (buffer s ! j)"
    proof (intro allI impI)
      fix j
      assume "j \<le> nat (int ?n - 1)"
      then have "j < ?n" using False by simp
      then show "isspace (buffer s ! j)"
        using strnlen_nth blank by blast
    qed
    from strip_loop_clears [OF run a b c] show ?thesis
      by (simp add: cstr_head_NUL)
  qed
  with fr show ?thesis by auto
qed

lemma strip_returns:
  assumes "\<exists>c \<in> set (below s). \<not> isspace c"
  shows "\<exists>s1. strip_trailing_whitespace s = Some s1"
proof -
  let ?n = "strnlen (buffer s) BUFFER_SIZE"
  from assms obtain k where k: "k < length (below s)" "\<not> isspace (below s ! k)"
    by (auto simp: in_set_conv_nth)
  have a: "int ?n - 1 < int (length (buffer s))"
    using strnlen_le [of "buffer s" BUFFER_SIZE] by simp
  have "- (int ?n - 1) - 1 \<le> int k" by simp
  with k have b: "\<exists>k < length (below s). - (int ?n - 1) - 1 \<le> int k \<and> \<not> isspace (below s ! k)"
    by blast
  show ?thesis
    unfolding strip_trailing_whitespace_def by (rule strip_loop_returns [OF a b])
qed

text \<open>
  Claim C9. When the line in \<open>buffer\<close> is empty or made of white space only, the
  round of \<open>main\<close> calls no built-in and writes nothing: either the loop of
  \<open>strip_trailing_whitespace\<close> runs out of the memory in front of \<open>buffer\<close>, or the
  round ends with the state it began with, but for \<open>filename\<close>, cleared, a \<open>buffer\<close>
  that now holds the empty string, and the bytes in front of \<open>buffer\<close> that the loop
  has overwritten; the system-call trace and both output streams are as before.
  The loop does stop when some byte in front of \<open>buffer\<close> is not white space.
\<close>

theorem blank_line_no_dispatch:
  assumes "\<forall>c \<in> set (cstr (take BUFFER_SIZE (buffer s))). isspace c"
  shows
    "(main_iteration s = Fault OutOfBoundsRead s \<or>
      (\<exists>b u. cstr u = [] \<and>
         main_iteration s = Next (s\<lparr>below := b, buffer := u, filename := []\<rparr>))) \<and>
     ((\<exists>c \<in> set (below s). \<not> isspace c) \<longrightarrow>
      (\<exists>b u. cstr u = [] \<and>
         main_iteration s = Next (s\<lparr>below := b, buffer := u, filename := []\<rparr>)))"
proof -
  have next_state: "\<exists>b u. cstr u = [] \<and>
      main_iteration s = Next (s\<lparr>below := b, buffer := u, filename := []\<rparr>)"
    if some: "strip_trailing_whitespace s = Some s1" for s1
  proof -
    from strip_blank_line [OF assms some]
    obtain b u where u: "cstr u = []" and s1: "s1 = s\<lparr>below := b, buffer := u\<rparr>" by blast
    have "main_iteration s = Next (s\<lparr>below := b, buffer := u, filename := []\<rparr>)"
      using some u by (simp add: main_iteration_def s1 dispatch_Nil)
    with u show ?thesis by blast
  qed
  show ?thesis
  proof (intro conjI impI)
    show "main_iteration s = Fault OutOfBoundsRead s \<or>
      (\<exists>b u. cstr u = [] \<and>
         main_iteration s = Next (s\<lparr>below := b, buffer := u, filename := []\<rparr>))"
    proof (cases "strip_trailing_whitespace s")
      case None
      then show ?thesis by (simp add: main_iteration_def)
    next
      case (Some s1)
      then show ?thesis using next_state by blast
    qed
  next
    assume "\<exists>c \<in> set (below s). \<not> isspace c"
    then obtain s1 where "strip_trailing_whitespace s = Some s1"
      using strip_returns by blast
    then show "\<exists>b u. cstr u = [] \<and>
         main_iteration s = Next (s\<lparr>below := b, buffer := u, filename := []\<rparr>)"
      by (rule next_state)
  qed
qed

theorem blank_line_no_dispatch_witness:
  "main_iteration (idle\<lparr>buffer := CHR 0x0A # replicate 255 NUL\<rparr>) =
     Next (idle\<lparr>buffer := NUL # replicate 255 NUL\<rparr>) \<and>
   main_iteration (idle\<lparr>below := [CHR '' ''], buffer := CHR 0x0A # replicate 255 NUL\<rparr>) =
     Fault OutOfBoundsRead (idle\<lparr>below := [CHR '' ''], buffer := CHR 0x0A # replicate 255 NUL\<rparr>)"
  using blank_line_no_dispatch [of "idle\<lparr>buffer := CHR 0x0A # replicate 255 NUL\<rparr>"]
    blank_line_no_dispatch [of "idle\<lparr>below := [CHR '' ''], buffer := CHR 0x0A # replicate 255 NUL\<rparr>"]
  by (simp add: idle_def main_iteration_def strip_trailing_whitespace_def strnlen_def cstr_def
      strip_loop.simps peek_def poke_def isspace_def NUL_def BUFFER_SIZE_def dispatch_Nil)

section \<open>What the dispatcher runs\<close>

lemma match_literal_append [simp]: "match_literal v (v @ rest) = Inr rest"
  by (induction v) simp_all

lemma match_literal_Inr: "match_literal v buf = Inr rest \<Longrightarrow> buf = v @ rest"
proof (induction v buf rule: match_literal.induct)
  case (1 inp)
  then show ?case by simp
next
  case (2 c cs)
  then show ?case by simp
next
  case (3 c cs x xs)
  then show ?case by (simp split: if_splits)
qed

lemma match_literal_not_prefix:
  "\<not> prefix v buf \<Longrightarrow> \<exists>r. match_literal v buf = Inl r"
proof (cases "match_literal v buf")
  case (Inl r)
  then show ?thesis by blast
next
  case (Inr rest)
  assume "\<not> prefix v buf"
  moreover from Inr have "buf = v @ rest" by (rule match_literal_Inr)
  ultimately show ?thesis by simp
qed

lemma sscanf_verb_not_prefix:
  "\<not> prefix v buf \<Longrightarrow> \<exists>r. sscanf_verb buf v = Failed r"
  using match_literal_not_prefix [of v buf] by (auto simp: sscanf_verb_def)

lemma sscanf_verb_Assigned_prefix:
  "sscanf_verb buf v = Assigned a \<Longrightarrow> prefix v buf"
  using sscanf_verb_not_prefix [of v buf] by auto

lemma sscanf_verb_alone [simp]: "sscanf_verb v v = Failed EOF"
  using match_literal_append [of v "[]"] by (simp add: sscanf_verb_def del: match_literal_append)

lemma skip_blank:
  assumes "blank ws" and "token t"
  shows "dropWhile isspace (ws @ t @ rest) = t @ rest"
proof -
  from assms(2) obtain c cs where t: "t = c # cs" and c: "\<not> isspace c"
    by (cases t) (auto simp: token_def)
  have "dropWhile isspace (ws @ t @ rest) = dropWhile isspace (t @ rest)"
    using assms(1) by (intro dropWhile_append2) (simp add: blank_def)
  also have "\<dots> = t @ rest" using t c by simp
  finally show ?thesis .
qed

lemma take_token:
  assumes "token t" and "token_ends rest"
  shows "takeWhile (\<lambda>c. \<not> isspace c) (t @ rest) = t"
proof -
  have "takeWhile (\<lambda>c. \<not> isspace c) (t @ rest) = t @ takeWhile (\<lambda>c. \<not> isspace c) rest"
    using assms(1) by (intro takeWhile_append2) (simp add: token_def)
  moreover have "takeWhile (\<lambda>c. \<not> isspace c) rest = []"
    using assms(2) by (cases rest) (simp_all add: token_ends_def)
  ultimately show ?thesis by simp
qed

lemma sscanf_verb_word:
  assumes "blank ws" and "token t" and "token_ends rest" and "length t < MAX_FILENAME_LENGTH"
  shows "sscanf_verb (v @ ws @ t @ rest) v = Assigned t"
proof -
  from assms(2) obtain c cs where t: "t = c # cs" and c: "\<not> isspace c"
    by (cases t) (auto simp: token_def)
  have d: "dropWhile isspace (ws @ t @ rest) = c # (cs @ rest)"
    using skip_blank [OF assms(1,2), of rest] t c by simp
  have w: "takeWhile (\<lambda>c. \<not> isspace c) (c # (cs @ rest)) = t"
    using take_token [OF assms(2,3)] t by simp
  show ?thesis
    using assms(4) c by (simp add: sscanf_verb_def d w Let_def del: takeWhile.simps)
qed

lemma strnlen_token: "token t \<Longrightarrow> strnlen t BUFFER_SIZE \<noteq> 0"
  by (cases t) (auto simp: token_def strnlen_def cstr_def BUFFER_SIZE_def)


lemma case_scan_not_prefix:
  "\<not> prefix v buf \<Longrightarrow>
   (case sscanf_verb buf v of Assigned a \<Rightarrow> B a | Failed r \<Rightarrow> C | Overflowed \<Rightarrow> A) = C"
  using sscanf_verb_not_prefix [of v buf] by auto

lemma unknown_report:
  "hd buf \<noteq> NUL \<Longrightarrow> buf \<noteq> [] \<Longrightarrow>
   invalid_command s buf =
     (Returned (- 1),
      fprintf_stderr s (''myshell: '' @ buf @ '': No such file or directory'' @ nl))"
  by (cases buf) (simp_all add: invalid_command_def strnlen_def cstr_def BUFFER_SIZE_def)

lemma dispatch_verb_argument:
  assumes "blank ws" and "token t" and "token_ends rest" and "length t < MAX_FILENAME_LENGTH"
  shows "dispatch s (''cd'' @ ws @ t @ rest) = ignore_result (do_cd (s\<lparr>filename := t\<rparr>))"
    and "dispatch s (''cat'' @ ws @ t @ rest) = ignore_result (do_cat (s\<lparr>filename := t\<rparr>) t)"
    and "dispatch s (''stat'' @ ws @ t @ rest) = ignore_result (do_stat (s\<lparr>filename := t\<rparr>) t)"
    and "dispatch s (''mkdir'' @ ws @ t @ rest) = ignore_result (do_mkdir (s\<lparr>filename := t\<rparr>) t)"
    and "dispatch s (''rmdir'' @ ws @ t @ rest) = ignore_result (do_rmdir (s\<lparr>filename := t\<rparr>) t)"
    and "\<not> prefix ''rmdir'' (''rm'' @ ws @ t @ rest) \<Longrightarrow>
         dispatch s (''rm'' @ ws @ t @ rest) = ignore_result (do_rm (s\<lparr>filename := t\<rparr>) t)"
    and "dispatch s (''ls'' @ ws @ t @ rest) = ignore_result (do_ls (s\<lparr>filename := t\<rparr>) t)"
    and "dispatch s (''q'' @ ws @ t @ rest) = Halt 0 (sys (SysExit 0) (s\<lparr>filename := t\<rparr>))"
proof -
  note w = sscanf_verb_word [OF assms]
  show "dispatch s (''cd'' @ ws @ t @ rest) = ignore_result (do_cd (s\<lparr>filename := t\<rparr>))"
    using w [of "''cd''"] by (simp add: dispatch_def)
  show "dispatch s (''cat'' @ ws @ t @ rest) = ignore_result (do_cat (s\<lparr>filename := t\<rparr>) t)"
    using w [of "''cat''"]
    by (simp add: dispatch_def execute_command_def case_scan_not_prefix strncmp_eq_def
        BUFFER_SIZE_def)
  show "dispatch s (''stat'' @ ws @ t @ rest) = ignore_result (do_stat (s\<lparr>filename := t\<rparr>) t)"
    using w [of "''stat''"]
    by (simp add: dispatch_def execute_command_def case_scan_not_prefix strncmp_eq_def
        BUFFER_SIZE_def)
  show "dispatch s (''mkdir'' @ ws @ t @ rest) = ignore_result (do_mkdir (s\<lparr>filename := t\<rparr>) t)"
    using w [of "''mkdir''"]
    by (simp add: dispatch_def execute_command_def case_scan_not_prefix strncmp_eq_def
        BUFFER_SIZE_def)
  show "dispatch s (''rmdir'' @ ws @ t @ rest) = ignore_result (do_rmdir (s\<lparr>filename := t\<rparr>) t)"
    using w [of "''rmdir''"]
    by (simp add: dispatch_def execute_command_def case_scan_not_prefix strncmp_eq_def
        BUFFER_SIZE_def)
  show "dispatch s (''rm'' @ ws @ t @ rest) = ignore_result (do_rm (s\<lparr>filename := t\<rparr>) t)"
    if "\<not> prefix ''rmdir'' (''rm'' @ ws @ t @ rest)"
    using w [of "''rm''"] that
    by (simp add: dispatch_def execute_command_def case_scan_not_prefix strncmp_eq_def
        BUFFER_SIZE_def)
  show "dispatch s (''ls'' @ ws @ t @ rest) = ignore_result (do_ls (s\<lparr>filename := t\<rparr>) t)"
    using w [of "''ls''"] strnlen_token [OF assms(2)]
    by (simp add: dispatch_def execute_command_def case_scan_not_prefix strncmp_eq_def
        BUFFER_SIZE_def ls_default_def)
  show "dispatch s (''q'' @ ws @ t @ rest) = Halt 0 (sys (SysExit 0) (s\<lparr>filename := t\<rparr>))"
    using w [of "''q''"]
    by (simp add: dispatch_def execute_command_def case_scan_not_prefix strncmp_eq_def
        BUFFER_SIZE_def do_q_def sys_exit_def ignore_result_def)
qed

lemma dispatch_verb_alone:
  shows "dispatch s ''cd'' = ignore_result (do_cd s)"
    and "dispatch s ''exit'' = Halt 0 (sys (SysExit 0) s)"
    and "dispatch s ''ls'' = ignore_result (ls_default s)"
    and "dispatch s ''pwd'' = ignore_result (do_pwd s)"
    and "dispatch s ''q'' = Halt 0 (sys (SysExit 0) s)"
    and "dispatch s ''cat'' =
           Next (fprintf_stderr s (''myshell: cat: No such file or directory'' @ nl))"
    and "dispatch s ''stat'' =
           Next (fprintf_stderr s (''myshell: stat: No such file or directory'' @ nl))"
    and "dispatch s ''mkdir'' =
           Next (fprintf_stderr s (''myshell: mkdir: No such file or directory'' @ nl))"
    and "dispatch s ''rm'' =
           Next (fprintf_stderr s (''myshell: rm: No such file or directory'' @ nl))"
    and "dispatch s ''rmdir'' = ignore_result (do_rm (s\<lparr>filename := ''dir''\<rparr>) ''dir'')"
  by (simp_all add: dispatch_def execute_command_def sscanf_verb_def strncmp_eq_def
      BUFFER_SIZE_def MAX_FILENAME_LENGTH_def isspace_def sys_exit_def ignore_result_def
      do_q_def invalid_command_def strnlen_def cstr_def NUL_def Let_def)

lemma dispatch_no_argument_verbs:
  assumes "x \<noteq> []"
  shows "dispatch s (''pwd'' @ x) =
           Next (fprintf_stderr s (''myshell: pwd'' @ x @ '': No such file or directory'' @ nl))"
    and "dispatch s (''exit'' @ x) =
           Next (fprintf_stderr s (''myshell: exit'' @ x @ '': No such file or directory'' @ nl))"
  using assms
  by (simp_all add: dispatch_def execute_command_def case_scan_not_prefix strncmp_eq_def
      BUFFER_SIZE_def unknown_report NUL_def ignore_result_def)


lemma trace_sys_read: "sys_read s fd n = (r, s1) \<Longrightarrow> trace s1 = trace s @ [SysRead fd n]"
  by (auto simp: sys_read_def sys_def Let_def
      split: option.splits list.splits read_event.splits if_splits)

lemma trace_sys_write: "sys_write s n = (w, s1) \<Longrightarrow> trace s1 = trace s @ [SysWrite n]"
  by (auto simp: sys_write_def sys_def Let_def split: list.splits write_event.splits)

lemma trace_sys_close: "trace (snd (sys_close s fd)) = trace s @ [SysClose fd]"
  by (simp add: sys_close_def sys_def Let_def split: option.splits)

lemma trace_cat_fail: "trace (snd (cat_fail s fd)) = trace s @ [SysClose fd]"
  using trace_sys_close [of s fd] by (simp add: cat_fail_def split_beta fprintf_stderr_def)

lemma cat_loop_trace: "prefix (trace s) (trace (snd (cat_loop s fd)))"
proof (induction s fd rule: cat_loop.induct)
  case (1 s fd)
  obtain r s1 where rd: "sys_read s fd BUFFER_SIZE = (r, s1)"
    by (cases "sys_read s fd BUFFER_SIZE")
  obtain w s2 where wr: "sys_write s1 (nat r) = (w, s2)"
    by (cases "sys_write s1 (nat r)")
  have p1: "prefix (trace s) (trace s1)"
    using trace_sys_read [OF rd] by simp
  have p2: "prefix (trace s) (trace s2)"
    using trace_sys_read [OF rd] trace_sys_write [OF wr] by simp
  consider "r = 0" | "r = - 1" | "r \<noteq> 0" "r \<noteq> - 1" "w \<noteq> r" | "r \<noteq> 0" "r \<noteq> - 1" "w = r"
    by blast
  then show ?case
  proof cases
    case 1
    have "prefix (trace s1) (trace (snd (sys_close s1 fd)))"
      by (simp add: trace_sys_close)
    with p1 have "prefix (trace s) (trace (snd (sys_close s1 fd)))"
      by (rule prefix_order.trans)
    then show ?thesis
      using rd 1 by (subst cat_loop.simps) (simp add: split_beta)
  next
    case 2
    have "prefix (trace s1) (trace (snd (cat_fail s1 fd)))"
      by (simp add: trace_cat_fail)
    with p1 have "prefix (trace s) (trace (snd (cat_fail s1 fd)))"
      by (rule prefix_order.trans)
    then show ?thesis
      using rd 2 by (subst cat_loop.simps) simp
  next
    case 3
    have "prefix (trace s2) (trace (snd (cat_fail s2 fd)))"
      by (simp add: trace_cat_fail)
    with p2 have "prefix (trace s) (trace (snd (cat_fail s2 fd)))"
      by (rule prefix_order.trans)
    then show ?thesis
      using rd wr 3 by (subst cat_loop.simps) simp
  next
    case 4
    have "prefix (trace (printf s2 nl)) (trace (snd (cat_loop (printf s2 nl) fd)))"
      using "1.IH" [OF rd [symmetric] 4(1,2) wr [symmetric]] 4(3) by simp
    then have "prefix (trace s2) (trace (snd (cat_loop (printf s2 nl) fd)))"
      by (simp add: printf_def)
    with p2 have "prefix (trace s) (trace (snd (cat_loop (printf s2 nl) fd)))"
      by (rule prefix_order.trans)
    then show ?thesis
      using rd wr 4 by (subst cat_loop.simps) simp
  qed
qed

lemma trace_sys_readdir: "sys_readdir s d = (r, s1) \<Longrightarrow> trace s1 = trace s @ [SysReaddir d]"
  by (auto simp: sys_readdir_def sys_def Let_def
      split: option.splits list.splits dir_event.splits)

lemma trace_sys_closedir: "trace (snd (sys_closedir s d)) = trace s @ [SysClosedir d]"
  by (simp add: sys_closedir_def sys_def Let_def split: option.splits)

lemma ls_loop_trace: "prefix (trace s) (trace (snd (ls_loop s d)))"
proof (induction s d rule: ls_loop.induct)
  case (1 s dir)
  obtain r s1 where rd: "sys_readdir s dir = (r, s1)"
    by (cases "sys_readdir s dir")
  have p1: "prefix (trace s) (trace s1)"
    using trace_sys_readdir [OF rd] by simp
  show ?case
  proof (cases r)
    case None
    have "prefix (trace s1) (trace (snd (sys_closedir s1 dir)))"
      by (simp add: trace_sys_closedir)
    with p1 have "prefix (trace s) (trace (snd (sys_closedir s1 dir)))"
      by (rule prefix_order.trans)
    then show ?thesis
      using rd None by (subst ls_loop.simps) (simp add: split_beta)
  next
    case (Some name)
    show ?thesis
    proof (cases "errno s1 = 0")
      case True
      have "prefix (trace (printf s1 (name @ nl))) (trace (snd (ls_loop (printf s1 (name @ nl)) dir)))"
        by (rule "1.IH" [OF rd [symmetric] Some True])
      then have "prefix (trace s1) (trace (snd (ls_loop (printf s1 (name @ nl)) dir)))"
        by (simp add: printf_def)
      with p1 have "prefix (trace s) (trace (snd (ls_loop (printf s1 (name @ nl)) dir)))"
        by (rule prefix_order.trans)
      then show ?thesis
        using rd Some True by (subst ls_loop.simps) simp
    next
      case False
      have "prefix (trace s1) (trace (snd (sys_closedir (fprintf_stderr s1 msg) dir)))" for msg
        by (simp add: trace_sys_closedir fprintf_stderr_def)
      with p1 have "prefix (trace s) (trace (snd (sys_closedir (fprintf_stderr s1 msg) dir)))" for msg
        by (rule prefix_order.trans)
      then show ?thesis
        using rd Some False by (subst ls_loop.simps) (simp add: split_beta Let_def)
    qed
  qed
qed


lemma state_of_ignore_result [simp]: "state_of (ignore_result r) = snd r"
  by (cases r) (simp add: state_of_def ignore_result_def split: outcome.splits)

lemma first_call_none [simp]: "trace s' = trace s \<Longrightarrow> first_call s (Next s') = None"
  "trace s' = trace s \<Longrightarrow> first_call s (Fault f s') = None"
  by (simp_all add: first_call_def state_of_def)

lemma first_call_cons:
  "trace (state_of st) = trace s @ c # calls \<Longrightarrow> first_call s st = Some c"
  by (simp add: first_call_def)

lemma do_cat_first:
  assumes "trace s' = trace s"
  shows "first_call s (ignore_result (do_cat s' a)) = Some (SysOpen a O_RDONLY)"
proof -
  obtain fd s1 where op: "sys_open s' a O_RDONLY = (fd, s1)"
    by (cases "sys_open s' a O_RDONLY")
  then have t1: "trace s1 = trace s @ [SysOpen a O_RDONLY]"
    using assms by (auto simp: sys_open_def sys_def Let_def split: sum.splits)
  have "\<exists>calls. trace (snd (do_cat s' a)) = trace s @ SysOpen a O_RDONLY # calls"
  proof (cases "fd = - 1")
    case True
    then show ?thesis
      using op t1 trace_sys_close [of s1 fd]
      by (simp add: do_cat_def split_beta fprintf_stderr_def)
  next
    case False
    from cat_loop_trace [of s1 fd] obtain calls
      where "trace (snd (cat_loop s1 fd)) = trace s1 @ calls"
      by (auto elim: prefixE)
    then show ?thesis
      using op t1 False by (simp add: do_cat_def)
  qed
  then show ?thesis
    by (auto intro: first_call_cons)
qed

lemma do_ls_first:
  assumes "trace s' = trace s"
  shows "first_call s (ignore_result (do_ls s' a)) = Some (SysOpendir a)"
proof -
  obtain d s1 where op: "sys_opendir s' a = (d, s1)" by (cases "sys_opendir s' a")
  then have t1: "trace s1 = trace s @ [SysOpendir a]"
    using assms by (auto simp: sys_opendir_def sys_def Let_def split: sum.splits)
  have "\<exists>calls. trace (snd (do_ls s' a)) = trace s @ SysOpendir a # calls"
  proof (cases d)
    case None
    then show ?thesis
      using op t1 by (simp add: do_ls_def fprintf_stderr_def)
  next
    case (Some dir)
    from ls_loop_trace [of "s1\<lparr>errno := 0\<rparr>" dir] obtain calls
      where "trace (snd (ls_loop (s1\<lparr>errno := 0\<rparr>) dir)) = trace s1 @ calls"
      by (auto elim: prefixE)
    then show ?thesis
      using op t1 Some by (simp add: do_ls_def)
  qed
  then show ?thesis
    by (auto intro: first_call_cons)
qed

lemma ls_default_first:
  assumes "trace s' = trace s"
  shows "\<exists>a. first_call s (ignore_result (ls_default s')) = Some (SysOpendir a)"
  using assms by (auto simp: ls_default_def Let_def do_ls_first)

lemma do_cd_first:
  assumes "trace s' = trace s"
  shows "first_call s (ignore_result (do_cd s')) = Some SysGetpwuid"
proof -
  have "\<exists>calls. trace (snd (do_cd s')) = trace s @ SysGetpwuid # calls"
    using assms
    by (auto simp: do_cd_def sys_getpwuid_def sys_chdir_def sys_def Let_def fprintf_stderr_def
        split: option.splits sum.splits)
  then show ?thesis
    by (auto intro: first_call_cons)
qed

lemma simple_builtins_first:
  assumes "trace s' = trace s"
  shows "first_call s (ignore_result (do_stat s' a)) = Some (SysStat a)"
    and "first_call s (ignore_result (do_mkdir s' a)) = Some (SysMkdir a mode_0777)"
    and "first_call s (ignore_result (do_rmdir s' a)) = Some (SysRmdir a)"
    and "first_call s (ignore_result (do_rm s' a)) = Some (SysUnlink a)"
    and "first_call s (ignore_result (do_pwd s')) = Some (SysGetcwd MAX_PATH_LENGTH)"
    and "first_call s (ignore_result (do_q s')) = Some (SysExit 0)"
    and "first_call s (ignore_result (sys_exit s' 0)) = Some (SysExit 0)"
    and "first_call s (ignore_result (invalid_command s' buf)) = None"
  using assms
  by (auto simp: first_call_def do_stat_def do_mkdir_def do_rmdir_def do_rm_def do_pwd_def
      do_q_def sys_exit_def invalid_command_def sys_stat_def sys_mkdir_def sys_rmdir_def
      sys_unlink_def sys_path_call_def sys_getcwd_def sys_def Let_def fprintf_stderr_def
      printf_def split: option.splits sum.splits)

lemma strncmp_eq_verb:
  "strncmp_eq buf v BUFFER_SIZE \<Longrightarrow> length v < BUFFER_SIZE \<Longrightarrow> buf = v"
proof -
  assume eq: "strncmp_eq buf v BUFFER_SIZE" and len: "length v < BUFFER_SIZE"
  then have t: "take BUFFER_SIZE buf = v" by (simp add: strncmp_eq_def)
  then have "length (take BUFFER_SIZE buf) < BUFFER_SIZE" using len by simp
  then have "length buf < BUFFER_SIZE" by (simp add: min_def split: if_splits)
  with t show "buf = v" by simp
qed


lemma strncmp_eq_verbs:
  "strncmp_eq buf ''cd'' BUFFER_SIZE \<Longrightarrow> buf = ''cd''"
  "strncmp_eq buf ''exit'' BUFFER_SIZE \<Longrightarrow> buf = ''exit''"
  "strncmp_eq buf ''ls'' BUFFER_SIZE \<Longrightarrow> buf = ''ls''"
  "strncmp_eq buf ''pwd'' BUFFER_SIZE \<Longrightarrow> buf = ''pwd''"
  "strncmp_eq buf ''q'' BUFFER_SIZE \<Longrightarrow> buf = ''q''"
  using strncmp_eq_verb [of buf "''cd''"] strncmp_eq_verb [of buf "''exit''"]
    strncmp_eq_verb [of buf "''ls''"] strncmp_eq_verb [of buf "''pwd''"]
    strncmp_eq_verb [of buf "''q''"]
  by (simp_all add: BUFFER_SIZE_def)

lemma ignore_result_returned: "ignore_result (Returned r, s) = Next s"
  by (simp add: ignore_result_def)

lemma ignore_result_crash [simp]: "ignore_result (Crashed f, s) = Fault f s"
  by (simp add: ignore_result_def)

lemma execute_command_first_call:
  assumes "first_call s (ignore_result (execute_command s' line)) = Some c" and "trace s' = trace s"
  shows "case c of
           SysOpen a fl \<Rightarrow> prefix ''cat'' line
         | SysStat a \<Rightarrow> prefix ''stat'' line
         | SysMkdir a m \<Rightarrow> prefix ''mkdir'' line
         | SysRmdir a \<Rightarrow> prefix ''rmdir'' line
         | SysUnlink a \<Rightarrow> prefix ''rm'' line
         | SysOpendir a \<Rightarrow> prefix ''ls'' line
         | SysGetcwd n \<Rightarrow> line = ''pwd''
         | SysExit n \<Rightarrow> prefix ''q'' line
         | _ \<Rightarrow> False"
  using assms unfolding execute_command_def
  by (auto split: scanned.splits if_splits
      simp: do_cat_first do_ls_first simple_builtins_first ls_default_def Let_def
      dest: sscanf_verb_Assigned_prefix strncmp_eq_verbs)


lemma dispatch_first_call:
  assumes "first_call s (dispatch s line) = Some c"
  shows "case c of
           SysGetpwuid \<Rightarrow> prefix ''cd'' line
         | SysOpen a fl \<Rightarrow> prefix ''cat'' line
         | SysStat a \<Rightarrow> prefix ''stat'' line
         | SysMkdir a m \<Rightarrow> prefix ''mkdir'' line
         | SysRmdir a \<Rightarrow> prefix ''rmdir'' line
         | SysUnlink a \<Rightarrow> prefix ''rm'' line
         | SysOpendir a \<Rightarrow> prefix ''ls'' line
         | SysGetcwd n \<Rightarrow> line = ''pwd''
         | SysExit n \<Rightarrow> line = ''exit'' \<or> prefix ''q'' line
         | _ \<Rightarrow> False"
proof (cases "sscanf_verb line ''cd''")
  case (Assigned a)
  then have "prefix ''cd'' line" by (rule sscanf_verb_Assigned_prefix)
  then show ?thesis
    using assms Assigned by (auto simp: dispatch_def do_cd_first)
next
  case Overflowed
  then show ?thesis
    using assms by (simp add: dispatch_def)
next
  case (Failed r)
  show ?thesis
  proof (cases "strncmp_eq line ''cd'' BUFFER_SIZE")
    case True
    then have "line = ''cd''" by (rule strncmp_eq_verbs)
    then show ?thesis
      using assms Failed True by (auto simp: dispatch_def do_cd_first)
  next
    case ncd: False
    show ?thesis
    proof (cases "strncmp_eq line ''exit'' BUFFER_SIZE")
      case True
      then have "line = ''exit''" by (rule strncmp_eq_verbs)
      then show ?thesis
        using assms Failed ncd True by (auto simp: dispatch_def simple_builtins_first)
    next
      case False
      then have "first_call s (ignore_result (execute_command s line)) = Some c"
        using assms Failed ncd by (simp add: dispatch_def)
      from execute_command_first_call [OF this] show ?thesis
        by (cases c) simp_all
    qed
  qed
qed


text \<open>
  Claim C1, as the source has it. The dispatcher matches characters, not tokens.
  A line that begins with the characters of \<open>cd\<close>, \<open>cat\<close>, \<open>stat\<close>, \<open>mkdir\<close>, \<open>rmdir\<close>,
  \<open>rm\<close>, \<open>ls\<close> or \<open>q\<close>, goes on with white space (or with none) and then a token, runs
  that verb's built-in on that token, whatever follows the token; for \<open>rm\<close> this is
  stated of the lines that do not begin with \<open>rmdir\<close>. Of the verbs alone, \<open>cd\<close>,
  \<open>exit\<close>, \<open>ls\<close>, \<open>pwd\<close> and \<open>q\<close> are run; \<open>cat\<close>, \<open>stat\<close>, \<open>mkdir\<close> and \<open>rm\<close> alone are
  reported as unknown commands. \<open>pwd\<close> and \<open>exit\<close> followed by anything are reported
  as unknown commands. In the other direction, a built-in only starts on a line
  that begins with the characters of its verb (for \<open>pwd\<close> and \<open>exit\<close>: that is the
  verb). Which built-in started is read off the first system call of the round.
\<close>

theorem dispatch_by_characters:
  assumes "blank ws" and "token t" and "token_ends rest" and "length t < MAX_FILENAME_LENGTH"
  shows
    "dispatch s (''cd'' @ ws @ t @ rest) = ignore_result (do_cd (s\<lparr>filename := t\<rparr>)) \<and>
     dispatch s (''cat'' @ ws @ t @ rest) = ignore_result (do_cat (s\<lparr>filename := t\<rparr>) t) \<and>
     dispatch s (''stat'' @ ws @ t @ rest) = ignore_result (do_stat (s\<lparr>filename := t\<rparr>) t) \<and>
     dispatch s (''mkdir'' @ ws @ t @ rest) = ignore_result (do_mkdir (s\<lparr>filename := t\<rparr>) t) \<and>
     dispatch s (''rmdir'' @ ws @ t @ rest) = ignore_result (do_rmdir (s\<lparr>filename := t\<rparr>) t) \<and>
     (\<not> prefix ''rmdir'' (''rm'' @ ws @ t @ rest) \<longrightarrow>
        dispatch s (''rm'' @ ws @ t @ rest) = ignore_result (do_rm (s\<lparr>filename := t\<rparr>) t)) \<and>
     dispatch s (''ls'' @ ws @ t @ rest) = ignore_result (do_ls (s\<lparr>filename := t\<rparr>) t) \<and>
     dispatch s (''q'' @ ws @ t @ rest) = Halt 0 (sys (SysExit 0) (s\<lparr>filename := t\<rparr>)) \<and>
     dispatch s ''cd'' = ignore_result (do_cd s) \<and>
     dispatch s ''exit'' = Halt 0 (sys (SysExit 0) s) \<and>
     (filename s = [] \<longrightarrow>
        dispatch s ''ls'' = ignore_result (do_ls (s\<lparr>filename := ''.''\<rparr>) ''.'')) \<and>
     dispatch s ''pwd'' = ignore_result (do_pwd s) \<and>
     dispatch s ''q'' = Halt 0 (sys (SysExit 0) s) \<and>
     dispatch s ''cat'' =
       Next (fprintf_stderr s (''myshell: cat: No such file or directory'' @ nl)) \<and>
     dispatch s ''stat'' =
       Next (fprintf_stderr s (''myshell: stat: No such file or directory'' @ nl)) \<and>
     dispatch s ''mkdir'' =
       Next (fprintf_stderr s (''myshell: mkdir: No such file or directory'' @ nl)) \<and>
     dispatch s ''rm'' =
       Next (fprintf_stderr s (''myshell: rm: No such file or directory'' @ nl)) \<and>
     (x \<noteq> [] \<longrightarrow>
        dispatch s (''pwd'' @ x) =
          Next (fprintf_stderr s
                  (''myshell: pwd'' @ x @ '': No such file or directory'' @ nl)) \<and>
        dispatch s (''exit'' @ x) =
          Next (fprintf_stderr s
                  (''myshell: exit'' @ x @ '': No such file or directory'' @ nl))) \<and>
     (first_call s (dispatch s line) = Some c \<longrightarrow>
        (case c of
           SysGetpwuid \<Rightarrow> prefix ''cd'' line
         | SysOpen a fl \<Rightarrow> prefix ''cat'' line
         | SysStat a \<Rightarrow> prefix ''stat'' line
         | SysMkdir a m \<Rightarrow> prefix ''mkdir'' line
         | SysRmdir a \<Rightarrow> prefix ''rmdir'' line
         | SysUnlink a \<Rightarrow> prefix ''rm'' line
         | SysOpendir a \<Rightarrow> prefix ''ls'' line
         | SysGetcwd n \<Rightarrow> line = ''pwd''
         | SysExit n \<Rightarrow> line = ''exit'' \<or> prefix ''q'' line
         | _ \<Rightarrow> False))"
proof -
  have ls: "dispatch s ''ls'' = ignore_result (do_ls (s\<lparr>filename := ''.''\<rparr>) ''.'')"
    if "filename s = []"
    using that by (simp add: dispatch_verb_alone ls_default_def)
  show ?thesis
    using dispatch_verb_argument [OF assms, of s] dispatch_verb_alone [of s]
      dispatch_no_argument_verbs [of x s] dispatch_first_call [of s line c] ls
    by simp
qed

theorem dispatch_by_characters_witness:
  "dispatch idle ''cat a'' = ignore_result (do_cat (idle\<lparr>filename := ''a''\<rparr>) ''a'') \<and>
   dispatch idle ''cat a b'' = ignore_result (do_cat (idle\<lparr>filename := ''a''\<rparr>) ''a'') \<and>
   dispatch idle ''rm a'' = ignore_result (do_rm (idle\<lparr>filename := ''a''\<rparr>) ''a'') \<and>
   dispatch idle ''pwd a'' =
     Next (fprintf_stderr idle (''myshell: pwd a: No such file or directory'' @ nl)) \<and>
   first_call idle (dispatch idle ''mkdir a'') = Some (SysMkdir ''a'' mode_0777) \<and>
   prefix ''mkdir'' ''mkdir a''"
  using dispatch_by_characters [of "'' ''" "''a''" "[]" idle "'' a''" "''mkdir a''" "SysMkdir ''a'' mode_0777"]
    dispatch_by_characters [of "'' ''" "''a''" "'' b''" idle "'' a''" "''mkdir a''" "SysMkdir ''a'' mode_0777"]
  by (simp add: blank_def token_def token_ends_def isspace_def NUL_def MAX_FILENAME_LENGTH_def
      simple_builtins_first)

theorem verb_pattern_counterexample:
  "dispatch idle ''cat'' =
     Next (fprintf_stderr idle (''myshell: cat: No such file or directory'' @ nl)) \<and>
   dispatch idle ''pwd x'' =
     Next (fprintf_stderr idle (''myshell: pwd x: No such file or directory'' @ nl)) \<and>
   first_call idle (dispatch idle ''cat a b'') = Some (SysOpen ''a'' O_RDONLY) \<and>
   leading_token ''catfoo'' = ''catfoo'' \<and>
   first_call idle (dispatch idle ''catfoo'') = Some (SysOpen ''foo'' O_RDONLY) \<and>
   first_call idle (dispatch idle ''rmdir'') = Some (SysUnlink ''dir'')"
  by (simp add: dispatch_def execute_command_def sscanf_verb_def strncmp_eq_def
      BUFFER_SIZE_def MAX_FILENAME_LENGTH_def isspace_def ignore_result_returned
      invalid_command_def strnlen_def cstr_def NUL_def Let_def leading_token_def
      do_cat_first simple_builtins_first)

text \<open>
  Claim C2, as the source has it. A non-empty line whose leading token is not a
  recognized verb, and which does not begin with the characters of one of the
  verbs that are matched by \<open>sscanf\<close>, makes no system call, puts the one line
  \<open>myshell: <line>: No such file or directory\<close> on standard error and gives -1.
\<close>

theorem unknown_command_rejected:
  assumes "line \<noteq> []" and "NUL \<notin> set line" and "leading_token line \<notin> set verbs"
    and "\<forall>v \<in> set scanned_verbs. \<not> prefix v line"
  shows
    "execute_command s line =
       (Returned (- 1),
        fprintf_stderr s (''myshell: '' @ line @ '': No such file or directory'' @ nl)) \<and>
     dispatch s line =
       Next (fprintf_stderr s (''myshell: '' @ line @ '': No such file or directory'' @ nl)) \<and>
     first_call s (dispatch s line) = None"
proof -
  have np: "\<not> prefix ''cd'' line" "\<not> prefix ''cat'' line" "\<not> prefix ''stat'' line"
    "\<not> prefix ''mkdir'' line" "\<not> prefix ''rmdir'' line" "\<not> prefix ''rm'' line"
    "\<not> prefix ''ls'' line" "\<not> prefix ''q'' line"
    using assms(4) by (simp_all add: scanned_verbs_def)
  have "leading_token ''pwd'' = ''pwd''" "leading_token ''exit'' = ''exit''"
    by (simp_all add: leading_token_def isspace_def)
  then have ne: "line \<noteq> ''pwd''" "line \<noteq> ''exit''"
    using assms(3) by (auto simp: verbs_def)
  have cmp: "\<not> strncmp_eq line ''cd'' BUFFER_SIZE" "\<not> strncmp_eq line ''exit'' BUFFER_SIZE"
    "\<not> strncmp_eq line ''ls'' BUFFER_SIZE" "\<not> strncmp_eq line ''pwd'' BUFFER_SIZE"
    "\<not> strncmp_eq line ''q'' BUFFER_SIZE"
    using np ne by (auto dest: strncmp_eq_verbs)
  have hd: "hd line \<noteq> NUL"
    using assms(1,2) by (cases line) auto
  have ex: "execute_command s line =
       (Returned (- 1),
        fprintf_stderr s (''myshell: '' @ line @ '': No such file or directory'' @ nl))"
    using np cmp unknown_report [OF hd assms(1)]
    by (simp add: execute_command_def case_scan_not_prefix)
  have di: "dispatch s line = ignore_result (execute_command s line)"
    using np cmp by (simp add: dispatch_def case_scan_not_prefix)
  show ?thesis
    using ex di by (simp add: ignore_result_def fprintf_stderr_def)
qed

theorem unknown_command_rejected_witness:
  "execute_command idle ''frobnicate'' =
     (Returned (- 1),
      fprintf_stderr idle (''myshell: frobnicate: No such file or directory'' @ nl)) \<and>
   dispatch idle ''frobnicate'' =
     Next (fprintf_stderr idle (''myshell: frobnicate: No such file or directory'' @ nl)) \<and>
   first_call idle (dispatch idle ''frobnicate'') = None"
  using unknown_command_rejected [of "''frobnicate''" idle]
  by (simp add: leading_token_def verbs_def scanned_verbs_def isspace_def NUL_def
      fprintf_stderr_def)

theorem unknown_verb_counterexample:
  "leading_token ''lsx'' = ''lsx'' \<and> ''lsx'' \<notin> set verbs \<and>
   first_call idle (dispatch idle ''lsx'') = Some (SysOpendir ''x'') \<and>
   err (state_of (dispatch idle ''lsx'')) = [''ls: No such file or directory'' @ nl] \<and>
   leading_token ''quit'' = ''quit'' \<and> ''quit'' \<notin> set verbs \<and>
   dispatch idle ''quit'' = Halt 0 (idle\<lparr>filename := ''uit'', trace := [SysExit 0]\<rparr>)"
  by (simp add: dispatch_def execute_command_def sscanf_verb_def strncmp_eq_def
      BUFFER_SIZE_def MAX_FILENAME_LENGTH_def isspace_def
      strnlen_def cstr_def NUL_def Let_def leading_token_def verbs_def
      do_ls_first ls_default_def do_ls_def sys_opendir_def sys_def fprintf_stderr_def
      idle_def quiet_env_def strerror_def ENOENT_def do_q_def sys_exit_def
      ignore_result_def first_call_def state_of_def)

end
